theory Spec2Isabelle
  imports Complex_Main "HOL-Library.Word"
begin

unbundle bit_operations_syntax

section \<open>Numbers, arrays and faults\<close>

text \<open>
  The engine is written in TypeScript; every number is an IEEE double. The model takes a
  number to be a \<^typ>\<open>real\<close>: sums and products are exact and \<open>exp\<close>, \<open>ln\<close>, \<open>sqrt\<close>,
  \<open>cos\<close> are the mathematical functions, rounding is not modelled. An array is a list.

  Two things can go wrong in the source where HOL would quietly return some value:
  \<^item> reading a property of \<open>undefined\<close> (indexing a missing row, taking \<open>.length\<close> of a
    missing array) throws a \<open>TypeError\<close>;
  \<^item> reading a missing element of an array of numbers gives \<open>undefined\<close>, and arithmetic
    on it gives \<open>NaN\<close>, which is no real number. The source goes on computing with it;
    the model stops at the first such value and reports \<open>NonReal\<close>.
\<close>

datatype jsfault = TypeError | NonReal

section \<open>Activation and loss functions\<close>

definition sigmoid :: "real \<Rightarrow> real" where
  "sigmoid x = 1 / (1 + exp (- x))"

definition relu :: "real \<Rightarrow> real" where
  "relu x = max 0 x"

definition sigmoidDerivative :: "real \<Rightarrow> real" where
  "sigmoidDerivative output = output * (1 - output)"

definition reluDerivative :: "real \<Rightarrow> real" where
  "reluDerivative preActivation = (if preActivation > 0 then 1 else 0)"

definition eps :: real where
  "eps = 1 / 10000000"

definition clampProb :: "real \<Rightarrow> real" where
  "clampProb val = max eps (min (1 - eps) val)"

text \<open>
  The mean over \<open>predicted\<close> of the cross-entropy, each probability clamped. The mean of
  no numbers is \<open>0 / 0\<close>, a \<open>NaN\<close>, and so is a term whose target is missing.
\<close>

definition binaryCrossEntropy :: "real list \<Rightarrow> real list \<Rightarrow> jsfault + real" where
  "binaryCrossEntropy predicted tgt =
     (if predicted = [] \<or> length tgt < length predicted then Inl NonReal
      else Inr (foldl (\<lambda>sum (pv, t).
                         let p = clampProb pv
                         in sum + - (t * ln p + (1 - t) * ln (1 - p)))
                  0 (zip predicted tgt)
                / real (length predicted)))"

definition calcConfidencePenalty :: "real list \<Rightarrow> jsfault + real" where
  "calcConfidencePenalty predicted =
     (if predicted = [] then Inl NonReal
      else Inr (foldl (\<lambda>sum p. sum + 4 * p * (1 - p)) 0 predicted / real (length predicted)))"

section \<open>The deterministic generator\<close>

text \<open>
  The two lanes \<open>m_w\<close> and \<open>m_z\<close> are 32-bit integers: \<open>& mask\<close> and \<open>>>> 0\<close> reduce modulo
  \<open>2^32\<close>, \<open>>> 16\<close> is the arithmetic shift of the signed value, and the products and sums
  in between stay below \<open>2^53\<close>, where doubles are exact. The seed is an integer; the two
  affine transforms of it are exact in doubles, as the model has them, for
  \<open>|seed| < 8 * 10^6\<close>, which covers every seed the application passes (123, 42 and the
  values below 100000 taken from the clock). The source has this generator twice, word
  for word: in the constructor of the engine and as \<open>seededRandom\<close> of the training hook.
  The generator of the unseeded engine is \<open>Math.random\<close>: any sequence of numbers, read
  in order.
\<close>

datatype rng = Mwc "32 word" "32 word" | MathRandom "nat \<Rightarrow> real" nat

fun random :: "rng \<Rightarrow> real \<times> rng" where
  "random (Mwc m_w m_z) =
     (let m_z' = 36969 * (m_z AND 65535) + signed_drop_bit 16 m_z;
          m_w' = 18000 * (m_w AND 65535) + signed_drop_bit 16 m_w;
          result = push_bit 16 m_z' + (m_w' AND 65535)
      in (real (unat result) / 4294967296, Mwc m_w' m_z'))"
| "random (MathRandom f n) = (f n, MathRandom f (Suc n))"

definition seedLanes :: "int \<Rightarrow> rng" where
  "seedLanes seed =
     (let m_w = (word_of_int (seed * 1103515245 + 12345) :: 32 word);
          m_z = (word_of_int (seed * 134775813 + 1) :: 32 word)
      in Mwc (if m_w = 0 then 1 else m_w) (if m_z = 0 then 1 else m_z))"

definition seededRandom :: "int \<Rightarrow> rng" where
  "seededRandom seed = ((\<lambda>g. snd (random g)) ^^ 10) (seedLanes seed)"

section \<open>The network engine\<close>

record NetworkState =
  weights :: "real list list list"
  biases :: "real list list"
  preActivations :: "real list list"
  activations :: "real list list"
  weightGrads :: "real list list list"
  biasGrads :: "real list list"

record Network = NetworkState +
  layerSizes :: "nat list"

subsection \<open>The constructor\<close>

text \<open>
  \<open>Math.log(0)\<close> is \<open>-Infinity\<close>, and the weight made from a draw \<open>u1 = 0\<close> is no real
  number; \<open>ln 0\<close> is \<open>0\<close> in HOL. The model of the constructor is the source's formula as it
  stands, and it says what the source computes only where every \<open>u1\<close> is positive.
\<close>

definition boxMuller :: "real \<Rightarrow> real \<Rightarrow> real" where
  "boxMuller u1 u2 = sqrt (- 2 * ln u1) * cos (2 * pi * u2)"

fun initRow :: "nat \<Rightarrow> real \<Rightarrow> rng \<Rightarrow> real list \<times> rng" where
  "initRow 0 scale g = ([], g)"
| "initRow (Suc k) scale g =
     (let (u1, g1) = random g;
          (u2, g2) = random g1;
          z = boxMuller u1 u2;
          (row, g') = initRow k scale g2
      in ((z * scale) # row, g'))"

fun initMatrix :: "nat \<Rightarrow> nat \<Rightarrow> real \<Rightarrow> rng \<Rightarrow> real list list \<times> rng" where
  "initMatrix 0 outputSize scale g = ([], g)"
| "initMatrix (Suc j) outputSize scale g =
     (let (row, g1) = initRow outputSize scale g;
          (w, g2) = initMatrix j outputSize scale g1
      in (row # w, g2))"

fun initLayers :: "nat list \<Rightarrow> rng \<Rightarrow> real list list list \<times> real list list" where
  "initLayers (inputSize # outputSize # rest) g =
     (let scale = sqrt (2 / real inputSize);
          (w, g1) = initMatrix inputSize outputSize scale g;
          (ws, bs) = initLayers (outputSize # rest) g1
      in (w # ws, replicate outputSize 0 # bs))"
| "initLayers sizes g = ([], [])"

definition Network_new :: "nat list \<Rightarrow> int option \<Rightarrow> (nat \<Rightarrow> real) \<Rightarrow> Network" where
  "Network_new sizes seed mathRandom =
     (let g = (case seed of Some s \<Rightarrow> seededRandom s | None \<Rightarrow> MathRandom mathRandom 0);
          (ws, bs) = initLayers sizes g
      in \<lparr> weights = ws, biases = bs, preActivations = [], activations = [],
           weightGrads = [], biasGrads = [], layerSizes = sizes \<rparr>)"

subsection \<open>getState and setState\<close>

text \<open>
  \<open>getState\<close> and \<open>setState\<close> copy every array element by element
  (\<open>map(w => w.map(row => [...row]))\<close>); on values such a copy is the list itself.
\<close>

definition getState :: "Network \<Rightarrow> NetworkState" where
  "getState net =
     \<lparr> weights = map (map (map (\<lambda>v. v))) (weights net),
       biases = map (map (\<lambda>v. v)) (biases net),
       preActivations = map (map (\<lambda>v. v)) (preActivations net),
       activations = map (map (\<lambda>v. v)) (activations net),
       weightGrads = map (map (map (\<lambda>v. v))) (weightGrads net),
       biasGrads = map (map (\<lambda>v. v)) (biasGrads net) \<rparr>"

definition setState :: "Network \<Rightarrow> NetworkState \<Rightarrow> Network" where
  "setState net state =
     net \<lparr> weights := map (map (map (\<lambda>v. v))) (weights state),
           biases := map (map (\<lambda>v. v)) (biases state),
           preActivations := map (map (\<lambda>v. v)) (preActivations state),
           activations := map (map (\<lambda>v. v)) (activations state),
           weightGrads := map (map (map (\<lambda>v. v))) (weightGrads state),
           biasGrads := map (map (\<lambda>v. v)) (biasGrads state) \<rparr>"

subsection \<open>forward\<close>

text \<open>
  \<open>z[j] += a * row[j]\<close> for every \<open>j < row.length\<close>. A row longer than \<open>z\<close> reads
  \<open>z[j]\<close> past its end.
\<close>

definition addScaled :: "real list \<Rightarrow> real \<Rightarrow> real list \<Rightarrow> jsfault + real list" where
  "addScaled z a row =
     (if length z < length row then Inl NonReal
      else Inr (map2 (\<lambda>zj wj. zj + a * wj) z row @ drop (length row) z))"

text \<open>
  The double loop \<open>for i < activation.length: for j < w[i].length\<close>. An activation
  with more entries than \<open>w\<close> has rows reads \<open>w[i].length\<close> of \<open>undefined\<close>.
\<close>

fun accumulate :: "real list \<Rightarrow> real list list \<Rightarrow> real list \<Rightarrow> jsfault + real list" where
  "accumulate [] w z = Inr z"
| "accumulate (a # as) [] z = Inl TypeError"
| "accumulate (a # as) (row # w) z =
     (case addScaled z a row of
        Inl e \<Rightarrow> Inl e
      | Inr z' \<Rightarrow> accumulate as w z')"

text \<open>\<open>for j < b.length: z[j] += b[j]\<close>; \<open>b\<close> is \<open>None\<close> when \<open>biases[layerIdx]\<close> is missing.\<close>

definition addBias :: "real list \<Rightarrow> real list option \<Rightarrow> jsfault + real list" where
  "addBias z b =
     (case b of
        None \<Rightarrow> Inl TypeError
      | Some bv \<Rightarrow>
          if length z < length bv then Inl NonReal
          else Inr (map2 (\<lambda>zj bj. zj + bj) z bv @ drop (length bv) z))"

definition linear :: "real list list \<Rightarrow> real list option \<Rightarrow> real list \<Rightarrow> jsfault + real list" where
  "linear w b activation =
     (case w of
        [] \<Rightarrow> Inl TypeError
      | row0 # _ \<Rightarrow>
          (case accumulate activation w (replicate (length row0) 0) of
             Inl e \<Rightarrow> Inl e
           | Inr z \<Rightarrow> addBias z b))"

text \<open>
  The loop over the layers. \<open>ws\<close> and \<open>bs\<close> are what is left of \<open>weights\<close> and
  \<open>biases\<close> from \<open>layerIdx\<close> on; \<open>pre\<close> and \<open>acts\<close> are the two arrays pushed to. The
  layer is the output layer when no weight matrix follows it.
\<close>

fun forwardLayers ::
  "real list list list \<Rightarrow> real list list \<Rightarrow> real list \<Rightarrow> real list list \<Rightarrow> real list list
     \<Rightarrow> jsfault + (real list \<times> real list list \<times> real list list)" where
  "forwardLayers [] bs activation pre acts = Inr (activation, pre, acts)"
| "forwardLayers (w # ws) bs activation pre acts =
     (case linear w (case bs of [] \<Rightarrow> None | b # _ \<Rightarrow> Some b) activation of
        Inl e \<Rightarrow> Inl e
      | Inr z \<Rightarrow>
          (let activation' = (if ws = [] then z else map (\<lambda>val. max 0 val) z)
           in forwardLayers ws (tl bs) activation' (pre @ [z]) (acts @ [activation'])))"

definition forward :: "Network \<Rightarrow> real list \<Rightarrow> jsfault + (real list \<times> Network)" where
  "forward net x =
     (case forwardLayers (weights net) (biases net) x [] [x] of
        Inl e \<Rightarrow> Inl e
      | Inr (activation, pre, acts) \<Rightarrow>
          Inr (activation, net \<lparr> preActivations := pre, activations := acts \<rparr>))"

subsection \<open>backward\<close>

text \<open>
  \<open>for j < activationIn.length: for k < delta.length: g[j][k] = activationIn[j] * delta[k]\<close>
  on the zero matrix \<open>g\<close> made in the shape of the weights. Writing into a missing row
  throws; writing past the end of a row extends it.
\<close>

fun outerInto :: "real list list \<Rightarrow> real list \<Rightarrow> real list \<Rightarrow> jsfault + real list list" where
  "outerInto g [] delta = Inr g"
| "outerInto [] (a # as) delta = (if delta = [] then Inr [] else Inl TypeError)"
| "outerInto (row # g) (a # as) delta =
     (case outerInto g as delta of
        Inl e \<Rightarrow> Inl e
      | Inr g' \<Rightarrow> Inr ((map (\<lambda>d. a * d) delta @ drop (length delta) row) # g'))"

text \<open>
  \<open>newDelta[j] += delta[k] * weights[i][j][k]\<close> for \<open>k < delta.length\<close>, summed from 0
  in the order of \<open>k\<close>.
\<close>

definition dotRow :: "real list \<Rightarrow> real list option \<Rightarrow> jsfault + real" where
  "dotRow delta row =
     (if delta = [] then Inr 0
      else case row of
        None \<Rightarrow> Inl TypeError
      | Some r \<Rightarrow>
          if length r < length delta then Inl NonReal
          else Inr (foldl (\<lambda>acc (d, w). acc + d * w) 0 (zip delta r)))"

fun propagate :: "nat \<Rightarrow> real list list \<Rightarrow> real list \<Rightarrow> jsfault + real list" where
  "propagate 0 w delta = Inr []"
| "propagate (Suc n) w delta =
     (case dotRow delta (case w of [] \<Rightarrow> None | r # _ \<Rightarrow> Some r) of
        Inl e \<Rightarrow> Inl e
      | Inr v \<Rightarrow>
          (case propagate n (tl w) delta of
             Inl e \<Rightarrow> Inl e
           | Inr vs \<Rightarrow> Inr (v # vs)))"

text \<open>\<open>newDelta.map((d, j) => d * reluGrad[j])\<close> with \<open>reluGrad = pre.map(z => z > 0 ? 1 : 0)\<close>.\<close>

definition applyRelu :: "real list \<Rightarrow> real list option \<Rightarrow> jsfault + real list" where
  "applyRelu newDelta pre =
     (case pre of
        None \<Rightarrow> Inl TypeError
      | Some zs \<Rightarrow>
          if length zs < length newDelta then Inl NonReal
          else Inr (map2 (\<lambda>d g. d * g) newDelta (map (\<lambda>z. if z > 0 then 1 else 0) zs)))"

definition nth_opt :: "'a list \<Rightarrow> nat \<Rightarrow> 'a option" where
  "nth_opt xs i = (if i < length xs then Some (xs ! i) else None)"

text \<open>
  The loop \<open>for (i = weights.length - 1; i >= 0; i--)\<close>. The first argument is the number of
  connections still to do, so the connection handled is \<open>i\<close> when it is \<open>Suc i\<close>. Each
  pass writes entry \<open>i\<close> of the two gradient arrays once; the model puts it in front of the
  entries written before, so the finished lists have entry \<open>i\<close> at position \<open>i\<close>.
\<close>

fun backLoop ::
  "Network \<Rightarrow> nat \<Rightarrow> real list \<Rightarrow> real list list list \<Rightarrow> real list list
     \<Rightarrow> jsfault + (real list list list \<times> real list list)" where
  "backLoop net 0 delta wg bg = Inr (wg, bg)"
| "backLoop net (Suc i) delta wg bg =
     (case nth_opt (activations net) i of
        None \<Rightarrow> Inl TypeError
      | Some activationIn \<Rightarrow>
          (case outerInto (map (\<lambda>row. replicate (length row) 0) (weights net ! i)) activationIn delta of
             Inl e \<Rightarrow> Inl e
           | Inr g \<Rightarrow>
               if i > 0 then
                 (case propagate (length activationIn) (weights net ! i) delta of
                    Inl e \<Rightarrow> Inl e
                  | Inr newDelta \<Rightarrow>
                      (case applyRelu newDelta (nth_opt (preActivations net) (i - 1)) of
                         Inl e \<Rightarrow> Inl e
                       | Inr delta' \<Rightarrow> backLoop net i delta' (g # wg) (delta # bg)))
               else backLoop net i delta (g # wg) (delta # bg)))"

definition lossGrad :: "real \<Rightarrow> real \<Rightarrow> real \<Rightarrow> real" where
  "lossGrad confidencePenalty y p =
     (let grad = (- y / p) + ((1 - y) / (1 - p))
      in if confidencePenalty > 0 then grad + confidencePenalty * 4 * (1 - 2 * p) else grad)"

text \<open>
  \<open>backward\<close> takes the input vector as its first argument and never reads it. An engine
  that has no stored activation makes \<open>sigmoid([undefined])\<close>, a \<open>NaN\<close>; a target longer
  than the output reads \<open>p[i]\<close> past its end. The bias gradients past the last connection,
  if \<open>biases\<close> is longer than \<open>weights\<close>, stay the zero vectors they were made.
\<close>

definition backward :: "Network \<Rightarrow> real list \<Rightarrow> real list \<Rightarrow> real \<Rightarrow> jsfault + Network" where
  "backward net x target confidencePenalty =
     (if activations net = [] then Inl NonReal
      else
        let output = map sigmoid (last (activations net));
            p = map clampProb output
        in if length p < length target then Inl NonReal
           else
             let delta0 = map2 (lossGrad confidencePenalty) target p;
                 dpDz = map (\<lambda>val. val * (1 - val)) output;
                 delta = map2 (\<lambda>d v. d * v) delta0 dpDz
             in (case backLoop net (length (weights net)) delta [] [] of
                   Inl e \<Rightarrow> Inl e
                 | Inr (wg, bg) \<Rightarrow>
                     Inr (net \<lparr> weightGrads := wg,
                                biasGrads := bg @ drop (length (weights net))
                                   (map (\<lambda>b. replicate (length b) 0) (biases net)) \<rparr>)))"

subsection \<open>step\<close>

text \<open>
  \<open>row[k] -= learningRate * grads[k]\<close> for every \<open>k < row.length\<close>. \<open>grads\<close> is \<open>None\<close>
  when the gradient row is \<open>undefined\<close>, and then the first read throws; a gradient row that
  is too short gives \<open>undefined\<close>, and the weight would become \<open>NaN\<close>. The row returned is
  the row as the fault leaves it.
\<close>

fun stepRow :: "real \<Rightarrow> real list \<Rightarrow> real list option \<Rightarrow> real list \<times> jsfault option" where
  "stepRow learningRate [] grads = ([], None)"
| "stepRow learningRate (w # row) None = (w # row, Some TypeError)"
| "stepRow learningRate (w # row) (Some []) = (w # row, Some NonReal)"
| "stepRow learningRate (w # row) (Some (g # grads)) =
     (case stepRow learningRate row (Some grads) of
        (row', fault) \<Rightarrow> ((w - learningRate * g) # row', fault))"

text \<open>
  The loop over the rows \<open>j\<close> of one weight matrix; \<open>grads\<close> is what is left of
  \<open>weightGrads[i]\<close> from row \<open>j\<close> on, \<open>None\<close> when \<open>weightGrads[i]\<close> is \<open>undefined\<close>.
\<close>

fun stepMatrix ::
  "real \<Rightarrow> real list list \<Rightarrow> real list list option \<Rightarrow> real list list \<times> jsfault option" where
  "stepMatrix learningRate [] grads = ([], None)"
| "stepMatrix learningRate (row # rows) grads =
     (case stepRow learningRate row
             (case grads of None \<Rightarrow> None | Some [] \<Rightarrow> None | Some (g # _) \<Rightarrow> Some g) of
        (row', Some e) \<Rightarrow> (row' # rows, Some e)
      | (row', None) \<Rightarrow>
          (case stepMatrix learningRate rows (map_option tl grads) of
             (rows', fault) \<Rightarrow> (row' # rows', fault)))"

text \<open>
  The loop over the connections \<open>i\<close>: the weights of connection \<open>i\<close>, then its biases.
  \<open>bs\<close>, \<open>wg\<close>, \<open>bg\<close> are what is left of \<open>biases\<close>, \<open>weightGrads\<close>, \<open>biasGrads\<close> from
  connection \<open>i\<close> on.
\<close>

fun stepLayers ::
  "real \<Rightarrow> real list list list \<Rightarrow> real list list \<Rightarrow> real list list list \<Rightarrow> real list list
     \<Rightarrow> (real list list list \<times> real list list) \<times> jsfault option" where
  "stepLayers learningRate [] bs wg bg = (([], bs), None)"
| "stepLayers learningRate (w # ws) bs wg bg =
     (case stepMatrix learningRate w (case wg of [] \<Rightarrow> None | g # _ \<Rightarrow> Some g) of
        (w', Some e) \<Rightarrow> ((w' # ws, bs), Some e)
      | (w', None) \<Rightarrow>
          (case bs of
             [] \<Rightarrow> ((w' # ws, []), Some TypeError)
           | b # bs' \<Rightarrow>
               (case stepRow learningRate b (case bg of [] \<Rightarrow> None | g # _ \<Rightarrow> Some g) of
                  (b', Some e) \<Rightarrow> ((w' # ws, b' # bs'), Some e)
                | (b', None) \<Rightarrow>
                    (case stepLayers learningRate ws bs' (tl wg) (tl bg) of
                       ((ws', bs''), fault) \<Rightarrow> ((w' # ws', b' # bs''), fault)))))"

text \<open>
  \<open>step\<close> returns the engine as the call leaves it, and the fault if it did not return
  normally: after a \<open>TypeError\<close> the engine is as the throw leaves it.
\<close>

definition step :: "Network \<Rightarrow> real \<Rightarrow> Network \<times> jsfault option" where
  "step net learningRate =
     (case stepLayers learningRate (weights net) (biases net) (weightGrads net) (biasGrads net) of
        ((ws, bs), fault) \<Rightarrow> (net \<lparr> weights := ws, biases := bs \<rparr>, fault))"

section \<open>The dataset generator\<close>

record DataPoint =
  input :: "real list"
  target :: "real list"
  trueTarget :: "real list"
  isNoisy :: bool

text \<open>
  The loop \<open>for (i = 0; i < numSamples; i++)\<close>, three draws a point; the first argument
  counts the points still to make.
\<close>

fun generateLoop :: "nat \<Rightarrow> real \<Rightarrow> rng \<Rightarrow> DataPoint list" where
  "generateLoop 0 noiseLevel rand = []"
| "generateLoop (Suc n) noiseLevel rand =
     (let (x1, rand1) = random rand;
          (x2, rand2) = random rand1;
          trueLabel = real_of_int ((if x1 \<ge> 1 / 2 then 1 else 0) XOR (if x2 \<ge> 1 / 2 then 1 else 0));
          (u, rand3) = random rand2;
          noisy = (u < noiseLevel);
          label = (if noisy then 1 - trueLabel else trueLabel)
      in \<lparr> input = [x1, x2], target = [label], trueTarget = [trueLabel], isNoisy = noisy \<rparr>
         # generateLoop n noiseLevel rand3)"

definition generateNoisyData :: "nat \<Rightarrow> real \<Rightarrow> int \<Rightarrow> DataPoint list" where
  "generateNoisyData numSamples noiseLevel seed =
     generateLoop numSamples noiseLevel (seededRandom seed)"

section \<open>The training orchestrator\<close>

text \<open>
  The hook keeps a \<open>TrainingState\<close> and replaces it by the value of a function of the
  previous one. A snapshot holds the state that \<open>getState\<close> exported, a copy that shares
  no array with the engine; \<open>setState\<close> copies again when a snapshot is loaded. So the
  engine's later writes (the in-place updates of \<open>step\<close>, the arrays \<open>forward\<close> and
  \<open>backward\<close> assign) reach no snapshot, and the model keeps snapshots as values. The
  field \<open>step\<close> of a snapshot is \<open>stepIndex\<close> here, \<open>step\<close> being the engine's operation.
\<close>

record TrainingStep =
  stepIndex :: nat
  state :: NetworkState
  loss :: real
  cleanLoss :: real
  accuracy :: real
  currentInputIdx :: nat

record TrainingState =
  network :: Network
  steps :: "TrainingStep list"
  currentStep :: nat
  isPlaying :: bool
  selectedInputIdx :: nat

definition CLEAN_XOR :: "(real list \<times> real list) list" where
  "CLEAN_XOR = [([0, 0], [0]), ([0, 1], [1]), ([1, 0], [1]), ([1, 1], [0])]"

text \<open>\<open>computeTrainLoss\<close>: every \<open>forward\<close> overwrites the intermediate values of the engine.\<close>

fun trainLossLoop ::
  "Network \<Rightarrow> DataPoint list \<Rightarrow> real \<Rightarrow> real \<Rightarrow> jsfault + (real \<times> Network)" where
  "trainLossLoop net [] confPenalty totalLoss = Inr (totalLoss, net)"
| "trainLossLoop net (d # data) confPenalty totalLoss =
     (case forward net (input d) of
        Inl e \<Rightarrow> Inl e
      | Inr (output, net') \<Rightarrow>
          (case binaryCrossEntropy (map sigmoid output) (target d) of
             Inl e \<Rightarrow> Inl e
           | Inr l \<Rightarrow>
               (case (if confPenalty > 0
                      then (case calcConfidencePenalty (map sigmoid output) of
                              Inl e \<Rightarrow> Inl e
                            | Inr c \<Rightarrow> Inr (l + confPenalty * c))
                      else Inr l) of
                  Inl e \<Rightarrow> Inl e
                | Inr l' \<Rightarrow> trainLossLoop net' data confPenalty (totalLoss + l'))))"

definition computeTrainLoss ::
  "Network \<Rightarrow> DataPoint list \<Rightarrow> real \<Rightarrow> jsfault + (real \<times> Network)" where
  "computeTrainLoss net data confPenalty =
     (case trainLossLoop net data confPenalty 0 of
        Inl e \<Rightarrow> Inl e
      | Inr (totalLoss, net') \<Rightarrow>
          if data = [] then Inl NonReal else Inr (totalLoss / real (length data), net'))"

text \<open>\<open>computeCleanMetrics\<close>: the loss and the number of correct predictions on the four corners.\<close>

fun cleanLoop ::
  "Network \<Rightarrow> (real list \<times> real list) list \<Rightarrow> real \<Rightarrow> nat \<Rightarrow> jsfault + (real \<times> nat \<times> Network)" where
  "cleanLoop net [] totalLoss correct = Inr (totalLoss, correct, net)"
| "cleanLoop net ((inp, tgt) # pts) totalLoss correct =
     (case forward net inp of
        Inl e \<Rightarrow> Inl e
      | Inr (output, net') \<Rightarrow>
          (case binaryCrossEntropy (map sigmoid output) tgt of
             Inl e \<Rightarrow> Inl e
           | Inr l \<Rightarrow>
               (let predicted = (if hd (map sigmoid output) \<ge> 1 / 2 then 1 else 0 :: real)
                in cleanLoop net' pts (totalLoss + l)
                     (if predicted = hd tgt then Suc correct else correct))))"

definition computeCleanMetrics :: "Network \<Rightarrow> jsfault + ((real \<times> real) \<times> Network)" where
  "computeCleanMetrics net =
     (case cleanLoop net CLEAN_XOR 0 0 of
        Inl e \<Rightarrow> Inl e
      | Inr (totalLoss, correct, net') \<Rightarrow>
          Inr ((totalLoss / real (length CLEAN_XOR), real correct / real (length CLEAN_XOR)), net'))"

definition createInitialState ::
  "nat list \<Rightarrow> DataPoint list \<Rightarrow> real \<Rightarrow> int option \<Rightarrow> (nat \<Rightarrow> real) \<Rightarrow> jsfault + TrainingState" where
  "createInitialState initialLayerSizes trainingData confPenalty seed mathRandom =
     (let net = Network_new initialLayerSizes seed mathRandom
      in case computeTrainLoss net trainingData confPenalty of
           Inl e \<Rightarrow> Inl e
         | Inr (l, net1) \<Rightarrow>
             (case computeCleanMetrics net1 of
                Inl e \<Rightarrow> Inl e
              | Inr ((cl, acc), net2) \<Rightarrow>
                  Inr \<lparr> network = net2,
                        steps = [\<lparr> stepIndex = 0, state = getState net2, loss = l, cleanLoss = cl,
                                   accuracy = acc, currentInputIdx = 0 \<rparr>],
                        currentStep = 0, isPlaying = False, selectedInputIdx = 0 \<rparr>))"

text \<open>One epoch: \<open>forward\<close>, \<open>backward\<close>, \<open>step\<close> for every point of the dataset, in its order.\<close>

fun trainEpoch :: "Network \<Rightarrow> DataPoint list \<Rightarrow> real \<Rightarrow> real \<Rightarrow> jsfault + Network" where
  "trainEpoch net [] learningRate confPenalty = Inr net"
| "trainEpoch net (d # data) learningRate confPenalty =
     (case forward net (input d) of
        Inl e \<Rightarrow> Inl e
      | Inr (output, net1) \<Rightarrow>
          (case backward net1 (input d) (target d) confPenalty of
             Inl e \<Rightarrow> Inl e
           | Inr net2 \<Rightarrow>
               (case step net2 learningRate of
                  (net3, Some e) \<Rightarrow> Inl e
                | (net3, None) \<Rightarrow> trainEpoch net3 data learningRate confPenalty)))"

text \<open>
  \<open>trainStep\<close>, the epoch-advance operation. The engine it trains is a new, unseeded one
  loaded with the state of the snapshot at \<open>currentStep\<close>.
\<close>

definition trainStep ::
  "DataPoint list \<Rightarrow> real \<Rightarrow> real \<Rightarrow> (nat \<Rightarrow> real) \<Rightarrow> TrainingState \<Rightarrow> jsfault + TrainingState" where
  "trainStep trainingData learningRate confPenalty mathRandom prev =
     (case nth_opt (steps prev) (currentStep prev) of
        None \<Rightarrow> Inl TypeError
      | Some snapshot \<Rightarrow>
          (let net = setState (Network_new (layerSizes (network prev)) None mathRandom) (state snapshot)
           in case trainEpoch net trainingData learningRate confPenalty of
                Inl e \<Rightarrow> Inl e
              | Inr net1 \<Rightarrow>
                  (let newState = getState net1
                   in case computeTrainLoss net1 trainingData confPenalty of
                        Inl e \<Rightarrow> Inl e
                      | Inr (l, net2) \<Rightarrow>
                          (case computeCleanMetrics net2 of
                             Inl e \<Rightarrow> Inl e
                           | Inr ((cl, acc), net3) \<Rightarrow>
                               Inr (prev \<lparr> network := net3,
                                           steps := steps prev @
                                             [\<lparr> stepIndex = currentStep prev + 1, state = newState,
                                                loss = l, cleanLoss = cl, accuracy = acc,
                                                currentInputIdx = 0 \<rparr>],
                                           currentStep := currentStep prev + 1 \<rparr>)))))"

text \<open>\<open>goToStep\<close>: the step asked for is any integer.\<close>

definition goToStep :: "int \<Rightarrow> (nat \<Rightarrow> real) \<Rightarrow> TrainingState \<Rightarrow> TrainingState" where
  "goToStep k mathRandom prev =
     (if k < 0 \<or> k \<ge> int (length (steps prev)) then prev
      else
        let net = setState (Network_new (layerSizes (network prev)) None mathRandom)
                    (state (steps prev ! nat k))
        in prev \<lparr> network := net, currentStep := nat k \<rparr>)"

text \<open>Consecutive calls of \<open>trainStep\<close>, one for each of the given \<open>Math.random\<close> sequences.\<close>

fun trainSteps ::
  "DataPoint list \<Rightarrow> real \<Rightarrow> real \<Rightarrow> (nat \<Rightarrow> real) list \<Rightarrow> TrainingState \<Rightarrow> jsfault + TrainingState" where
  "trainSteps trainingData learningRate confPenalty [] st = Inr st"
| "trainSteps trainingData learningRate confPenalty (r # rs) st =
     (case trainStep trainingData learningRate confPenalty r st of
        Inl e \<Rightarrow> Inl e
      | Inr st' \<Rightarrow> trainSteps trainingData learningRate confPenalty rs st')"

section \<open>Shapes\<close>

text \<open>
  A topology \<open>[n0, n1, ...]\<close> fixes the shapes of the parameters: connection \<open>i\<close> has a
  weight matrix of \<open>n_i\<close> rows of \<open>n_(i+1)\<close> entries and a bias vector of \<open>n_(i+1)\<close> entries.
  The widths on the input side of a connection are positive, so that row 0 of every
  matrix exists.
\<close>

fun shaped :: "nat list \<Rightarrow> real list list list \<Rightarrow> real list list \<Rightarrow> bool" where
  "shaped (n # m # ls) (w # ws) (b # bs) =
     (0 < n \<and> length w = n \<and> list_all (\<lambda>row. length row = m) w \<and> length b = m \<and>
      shaped (m # ls) ws bs)"
| "shaped [n] [] [] = True"
| "shaped ls ws bs = False"

definition wellShaped :: "Network \<Rightarrow> bool" where
  "wellShaped net =
     (2 \<le> length (layerSizes net) \<and> shaped (layerSizes net) (weights net) (biases net))"

text \<open>
  The engine after a \<open>forward\<close>: one activation per layer and one pre-activation per
  connection, of the widths of the topology, the last activation being the last
  pre-activation.
\<close>

definition storedShapes :: "Network \<Rightarrow> bool" where
  "storedShapes net =
     (wellShaped net \<and>
      list_all2 (\<lambda>v k. length v = k) (activations net) (layerSizes net) \<and>
      list_all2 (\<lambda>v k. length v = k) (preActivations net) (tl (layerSizes net)) \<and>
      last (activations net) = last (preActivations net))"

definition pointOK :: "DataPoint \<Rightarrow> bool" where
  "pointOK d = (length (input d) = 2 \<and> length (target d) = 1)"

definition engineOK :: "Network \<Rightarrow> bool" where
  "engineOK net = (wellShaped net \<and> hd (layerSizes net) = 2 \<and> last (layerSizes net) = 1)"

text \<open>
  A training state of the application: the position is inside the history, the topology
  has two inputs and one output, and the parameters of every snapshot have its shapes.
\<close>

definition historyOK :: "TrainingState \<Rightarrow> bool" where
  "historyOK st =
     (currentStep st < length (steps st) \<and>
      2 \<le> length (layerSizes (network st)) \<and>
      hd (layerSizes (network st)) = 2 \<and> last (layerSizes (network st)) = 1 \<and>
      list_all (\<lambda>snapshot. shaped (layerSizes (network st)) (weights (state snapshot))
                               (biases (state snapshot))) (steps st))"

definition frontier :: "TrainingState \<Rightarrow> bool" where
  "frontier st =
     (map stepIndex (steps st) = [0..<length (steps st)] \<and>
      Suc (currentStep st) = length (steps st))"

section \<open>The words of the specification\<close>

subsection \<open>Gradients\<close>

text \<open>
  The words of the specification, as functions: the outer product of an activation with an
  error signal, the product of a weight matrix with an error signal
  (\<open>(W \<cdot> d)_j = \<Sum>k. W[j][k] * d_k\<close>), and the error signal of connection \<open>i\<close>, which is the
  output-layer signal for the last connection and
  \<open>(W_(i+1) \<cdot> d_(i+1)) \<odot> reluDerivative(preActivation_i)\<close> below it.
\<close>

definition outer :: "real list \<Rightarrow> real list \<Rightarrow> real list list" where
  "outer a d = map (\<lambda>aj. map (\<lambda>dk. aj * dk) d) a"

definition matVec :: "real list list \<Rightarrow> real list \<Rightarrow> real list" where
  "matVec W d = map (\<lambda>row. sum_list (map2 (\<lambda>wk dk. wk * dk) row d)) W"

function deltaAt :: "Network \<Rightarrow> real list \<Rightarrow> nat \<Rightarrow> real list" where
  "deltaAt net dOut i =
     (if Suc i < length (weights net)
      then map2 (\<lambda>v z. v * reluDerivative z)
             (matVec (weights net ! Suc i) (deltaAt net dOut (Suc i)))
             (preActivations net ! i)
      else dOut)"
  by pat_completeness auto
termination
  by (relation "measure (\<lambda>(net, dOut, i). length (weights net) - i)") auto

declare deltaAt.simps [simp del]

text \<open>
  The output-layer error signal for one output, with target \<open>y\<close>, raw pre-activation \<open>z\<close>
  and confidence-penalty strength \<open>s\<close>. \<open>outputDelta\<close> multiplies the loss gradient, taken
  at the clamped probability, by the logistic derivative at the logistic value itself;
  \<open>claimedOutputDelta\<close> takes the derivative factor at the clamped probability too.
\<close>

definition outputDelta :: "real \<Rightarrow> real \<Rightarrow> real \<Rightarrow> real" where
  "outputDelta s y z =
     (let sg = sigmoid z; p = clampProb sg
      in (- y / p + (1 - y) / (1 - p) + s * 4 * (1 - 2 * p)) * (sg * (1 - sg)))"

definition claimedOutputDelta :: "real \<Rightarrow> real \<Rightarrow> real \<Rightarrow> real" where
  "claimedOutputDelta s y z =
     (let p = clampProb (sigmoid z)
      in (- y / p + (1 - y) / (1 - p) + s * 4 * (1 - 2 * p)) * (p * (1 - p)))"

subsection \<open>Draws\<close>

text \<open>
  \<open>advance k g\<close> is the generator after \<open>k\<close> calls, \<open>drawAt g k\<close> the number its call
  \<open>k + 1\<close> returns.
\<close>

definition advance :: "nat \<Rightarrow> rng \<Rightarrow> rng" where
  "advance k g = ((\<lambda>g. snd (random g)) ^^ k) g"

definition drawAt :: "rng \<Rightarrow> nat \<Rightarrow> real" where
  "drawAt g k = fst (random (advance k g))"

text \<open>
  The constructor samples the weights connection by connection, row by row:
  \<open>weightNumber sizes i j k\<close> weights are sampled before weight \<open>[i][j][k]\<close>.
\<close>

fun weightsBefore :: "nat list \<Rightarrow> nat \<Rightarrow> nat" where
  "weightsBefore sizes 0 = 0"
| "weightsBefore sizes (Suc i) = weightsBefore sizes i + sizes ! i * sizes ! Suc i"

definition weightNumber :: "nat list \<Rightarrow> nat \<Rightarrow> nat \<Rightarrow> nat \<Rightarrow> nat" where
  "weightNumber sizes i j k = weightsBefore sizes i + j * sizes ! Suc i + k"

text \<open>
  The words of the specification for point \<open>i\<close>: the draws \<open>3i\<close>, \<open>3i + 1\<close>, \<open>3i + 2\<close> of the
  generator are \<open>x1\<close>, \<open>x2\<close> and the noise draw; the true label is 1 when exactly one of
  \<open>x1\<close>, \<open>x2\<close> is at least \<open>1/2\<close>; the stored label is flipped exactly when the noise draw
  is below the noise level.
\<close>

definition pointAt :: "rng \<Rightarrow> real \<Rightarrow> nat \<Rightarrow> DataPoint" where
  "pointAt g noiseLevel i =
     (let x1 = drawAt g (3 * i);
          x2 = drawAt g (3 * i + 1);
          u = drawAt g (3 * i + 2);
          trueLabel = (if (x1 \<ge> 1 / 2) \<noteq> (x2 \<ge> 1 / 2) then 1 else 0)
      in \<lparr> input = [x1, x2],
           target = [if u < noiseLevel then 1 - trueLabel else trueLabel],
           trueTarget = [trueLabel],
           isNoisy = (u < noiseLevel) \<rparr>)"

section \<open>The generator on integers\<close>

text \<open>
  For evaluation, one lane as a signed 32-bit integer:
  \<open>(a * (s & 65535) + (s >> 16)) & mask\<close> read as a signed value.
\<close>

definition laneInt :: "int \<Rightarrow> int \<Rightarrow> int" where
  "laneInt a s =
     (let y = a * (s mod 65536) + s div 65536
      in if 2147483648 \<le> y then y - 4294967296 else y)"

fun lanesInt :: "nat \<Rightarrow> int \<times> int \<Rightarrow> int \<times> int" where
  "lanesInt 0 s = s"
| "lanesInt (Suc n) s = lanesInt n (laneInt 18000 (fst s), laneInt 36969 (snd s))"

definition int32 :: "int \<Rightarrow> bool" where
  "int32 s = (- 2147483648 \<le> s \<and> s < 2147483648)"

text \<open>One lane of the seeded state, \<open>(seed * a + c) >>> 0\<close> forced away from 0, as a signed value.\<close>

definition seedInt :: "int \<Rightarrow> int \<Rightarrow> int \<Rightarrow> int" where
  "seedInt a c seed =
     (let m = (seed * a + c) mod 4294967296;
          m = (if m = 0 then 1 else m)
      in if 2147483648 \<le> m then m - 4294967296 else m)"

section \<open>Example engines\<close>

text \<open>
  \<open>exampleNet\<close> has topology \<open>[2, 2, 1]\<close> and sends \<open>[3, 3]\<close> to the raw output \<open>0\<close>;
  \<open>steepNet\<close> has topology \<open>[1, 1]\<close> and sends \<open>[1]\<close> to the raw output \<open>-40\<close>, where the
  logistic value is below the clamp. \<open>exampleStored\<close> and \<open>steepStored\<close> are the engines
  these calls of \<open>forward\<close> leave.
\<close>

definition exampleNet :: Network where
  "exampleNet =
     \<lparr> weights = [[[1, 0], [0, 1]], [[1], [-1]]], biases = [[0, 0], [0]],
       preActivations = [], activations = [], weightGrads = [], biasGrads = [],
       layerSizes = [2, 2, 1] \<rparr>"

definition exampleStored :: Network where
  "exampleStored =
     exampleNet \<lparr> preActivations := [[3, 3], [0]], activations := [[3, 3], [3, 3], [0]] \<rparr>"

definition steepNet :: Network where
  "steepNet =
     \<lparr> weights = [[[-40]]], biases = [[0]],
       preActivations = [], activations = [], weightGrads = [], biasGrads = [],
       layerSizes = [1, 1] \<rparr>"

definition steepStored :: Network where
  "steepStored = steepNet \<lparr> preActivations := [[-40]], activations := [[1], [-40]] \<rparr>"

text \<open>A history of two snapshots, positioned at the second.\<close>

definition exampleHistory :: TrainingState where
  "exampleHistory =
     \<lparr> network = exampleStored,
       steps = [\<lparr> stepIndex = 0, state = getState exampleNet, loss = 1, cleanLoss = 1,
                   accuracy = 1 / 2, currentInputIdx = 0 \<rparr>,
                \<lparr> stepIndex = 1, state = getState exampleStored, loss = 1 / 2, cleanLoss = 1 / 2,
                   accuracy = 1, currentInputIdx = 0 \<rparr>],
       currentStep = 1, isPlaying = False, selectedInputIdx = 0 \<rparr>"

section \<open>backward: what it reads and what it writes\<close>

text \<open>
  C10. The first argument of \<open>backward\<close> has no effect: two calls on the same engine with the
  same target and the same confidence-penalty strength end in the same outcome (the same
  engine, gradients included, or the same fault) whatever the two first arguments are.
\<close>

theorem backward_ignores_input:
  "backward net x1 tgt confidencePenalty = backward net x2 tgt confidencePenalty"
  by (simp add: backward_def)

text \<open>
  C9. When \<open>backward\<close> returns, the weights, the biases, the stored pre-activations and
  activations and the topology of the engine are what they were before the call; the two
  gradient arrays are the only fields written.
\<close>

theorem backward_frame:
  "backward net x tgt confidencePenalty = Inr net' \<Longrightarrow>
     weights net' = weights net \<and> biases net' = biases net \<and>
     preActivations net' = preActivations net \<and> activations net' = activations net \<and>
     layerSizes net' = layerSizes net \<and>
     net' = net \<lparr> weightGrads := weightGrads net', biasGrads := biasGrads net' \<rparr>"
  by (auto simp: backward_def Let_def split: if_splits sum.splits prod.splits)

section \<open>Export and import of the state\<close>

text \<open>
  C5. Loading the exported state of an engine \<open>e\<close> into any other engine \<open>e2\<close> makes the
  exported state of \<open>e2\<close> equal to that of \<open>e\<close>, and \<open>forward\<close> on the loaded engine has the
  outcome it has on \<open>e\<close>: the same output vector and the same exported state after the call,
  or the same fault.
\<close>

theorem setState_getState_roundtrip:
  "getState (setState e2 (getState e)) = getState e \<and>
   map_sum id (\<lambda>(out, n). (out, getState n)) (forward (setState e2 (getState e)) x) =
   map_sum id (\<lambda>(out, n). (out, getState n)) (forward e x)"
  by (simp add: getState_def setState_def forward_def split: sum.splits prod.splits)

section \<open>forward on well-shaped parameters\<close>

lemma addScaled_ok:
  "length row = length z \<Longrightarrow>
     addScaled z a row = Inr (map2 (\<lambda>zj wj. zj + a * wj) z row)"
  by (simp add: addScaled_def)

lemma accumulate_ok:
  "list_all (\<lambda>row. length row = m) w \<Longrightarrow> length a \<le> length w \<Longrightarrow> length z = m \<Longrightarrow>
     \<exists>z'. accumulate a w z = Inr z' \<and> length z' = m"
proof (induction a w z rule: accumulate.induct)
  case (1 w z)
  then show ?case by simp
next
  case (2 a as z)
  then show ?case by simp
next
  case (3 a as row w z)
  then have "addScaled z a row = Inr (map2 (\<lambda>zj wj. zj + a * wj) z row)"
    by (simp add: addScaled_ok)
  moreover have "length (map2 (\<lambda>zj wj. zj + a * wj) z row) = m"
    using 3 by simp
  ultimately show ?case using 3 by simp
qed

lemma accumulate_too_long:
  "list_all (\<lambda>row. length row = m) w \<Longrightarrow> length w < length a \<Longrightarrow> length z = m \<Longrightarrow>
     accumulate a w z = Inl TypeError"
proof (induction a w z rule: accumulate.induct)
  case (3 a as row w z)
  then have "addScaled z a row = Inr (map2 (\<lambda>zj wj. zj + a * wj) z row)"
    by (simp add: addScaled_ok)
  then show ?case using 3 by simp
qed simp_all

lemma linear_ok:
  "w \<noteq> [] \<Longrightarrow> list_all (\<lambda>row. length row = m) w \<Longrightarrow> length a \<le> length w \<Longrightarrow> length b = m \<Longrightarrow>
     \<exists>z. linear w (Some b) a = Inr z \<and> length z = m"
proof -
  assume w: "w \<noteq> []" and rows: "list_all (\<lambda>row. length row = m) w"
    and a: "length a \<le> length w" and b: "length b = m"
  from w obtain row0 w' where w': "w = row0 # w'" by (cases w) auto
  with rows have r0: "length row0 = m" by simp
  from accumulate_ok[OF rows a, of "replicate (length row0) 0"] r0
  obtain z where z: "accumulate a w (replicate (length row0) 0) = Inr z" "length z = m"
    by auto
  then show ?thesis using w' b by (simp add: linear_def addBias_def)
qed

lemma linear_too_long:
  "w \<noteq> [] \<Longrightarrow> list_all (\<lambda>row. length row = m) w \<Longrightarrow> length w < length a \<Longrightarrow>
     linear w b a = Inl TypeError"
proof -
  assume w: "w \<noteq> []" and rows: "list_all (\<lambda>row. length row = m) w"
    and a: "length w < length a"
  from w obtain row0 w' where w': "w = row0 # w'" by (cases w) auto
  with rows have r0: "length row0 = m" by simp
  from accumulate_too_long[OF rows a, of "replicate (length row0) 0"] r0
  show ?thesis using w' by (simp add: linear_def)
qed

lemma shaped_lengths:
  "shaped ls ws bs \<Longrightarrow> length ls = Suc (length ws) \<and> length bs = length ws"
  by (induction ls ws bs rule: shaped.induct) simp_all

lemma forwardLayers_shaped:
  "shaped (n # ls) ws bs \<Longrightarrow> length a \<le> n \<Longrightarrow>
     \<exists>out pre' acts'.
       forwardLayers ws bs a pre acts = Inr (out, pre @ pre', acts @ acts') \<and>
       list_all2 (\<lambda>v k. length v = k) pre' ls \<and>
       list_all2 (\<lambda>v k. length v = k) acts' ls \<and>
       (ws \<noteq> [] \<longrightarrow> out = last pre' \<and> last acts' = last pre')"
proof (induction ws arbitrary: n ls bs a pre acts)
  case Nil
  then have "ls = []" by (cases ls; cases bs) simp_all
  then show ?case by simp
next
  case (Cons w ws)
  from Cons.prems(1) obtain m ls' b bs' where
    ls: "ls = m # ls'" and bs: "bs = b # bs'" and n: "0 < n" and w: "length w = n"
    and rows: "list_all (\<lambda>row. length row = m) w" and b: "length b = m"
    and rest: "shaped (m # ls') ws bs'"
    by (cases ls; cases bs) auto
  from n w have wne: "w \<noteq> []" by auto
  from Cons.prems(2) w have "length a \<le> length w" by simp
  from linear_ok[OF wne rows this b] obtain z where
    z: "linear w (Some b) a = Inr z" "length z = m" by auto
  define act where "act = (if ws = [] then z else map (\<lambda>val. max 0 val) z)"
  have actlen: "length act = m" using z by (simp add: act_def)
  then have "length act \<le> m" by simp
  from Cons.IH[OF rest this, of "pre @ [z]" "acts @ [act]"] obtain out pre'' acts'' where
    ih: "forwardLayers ws bs' act (pre @ [z]) (acts @ [act]) = Inr (out, (pre @ [z]) @ pre'', (acts @ [act]) @ acts'')"
        "list_all2 (\<lambda>v k. length v = k) pre'' ls'"
        "list_all2 (\<lambda>v k. length v = k) acts'' ls'"
        "ws \<noteq> [] \<longrightarrow> out = last pre'' \<and> last acts'' = last pre''"
    by blast
  have run: "forwardLayers (w # ws) bs a pre acts = Inr (out, pre @ (z # pre''), acts @ (act # acts''))"
    using z ih(1) bs by (simp add: act_def Let_def)
  have lens: "length pre'' = length ws" "length acts'' = length ws"
    using ih(2,3) shaped_lengths[OF rest] by (auto dest: list_all2_lengthD)
  have "out = last (z # pre'') \<and> last (act # acts'') = last (z # pre'')"
  proof (cases "ws = []")
    case True
    with lens have "pre'' = []" "acts'' = []" by simp_all
    moreover from True ih(1) have "out = act" by simp
    moreover from True have "act = z" by (simp add: act_def)
    ultimately show ?thesis by simp
  next
    case False
    with lens have "pre'' \<noteq> []" "acts'' \<noteq> []" by auto
    with False ih(4) show ?thesis by simp
  qed
  with run ih(2,3) z(2) actlen ls show ?case by auto
qed

lemma accumulate_prefix:
  "length a \<le> length p \<Longrightarrow> accumulate a (p @ r) z = accumulate a p z"
proof (induction a p z rule: accumulate.induct)
  case (1 w z)
  then show ?case by simp
next
  case (2 a as z)
  then show ?case by simp
next
  case (3 a as row w z)
  then show ?case by (cases "addScaled z a row") simp_all
qed

lemma accumulate_unread_rows:
  assumes "length a \<le> length w"
  shows "accumulate a (take (length a) w @ rows) z = accumulate a w z"
proof -
  have k: "length a \<le> length (take (length a) w)" using assms by simp
  have "accumulate a w z = accumulate a (take (length a) w @ drop (length a) w) z" by simp
  also have "\<dots> = accumulate a (take (length a) w) z" by (rule accumulate_prefix[OF k])
  also have "\<dots> = accumulate a (take (length a) w @ rows) z"
    by (rule accumulate_prefix[OF k, symmetric])
  finally show ?thesis by simp
qed

lemma linear_rect:
  "w \<noteq> [] \<Longrightarrow> list_all (\<lambda>row. length row = m) w \<Longrightarrow>
     linear w b a =
       (case accumulate a w (replicate m 0) of Inl e \<Rightarrow> Inl e | Inr z \<Rightarrow> addBias z b)"
  by (cases w) (simp_all add: linear_def)

lemma linear_unread_rows:
  assumes w: "w \<noteq> []" "list_all (\<lambda>row. length row = m) w"
    and a: "length a \<le> length w"
    and rows: "length rows = length w - length a" "list_all (\<lambda>row. length row = m) rows"
  shows "linear (take (length a) w @ rows) b a = linear w b a"
proof -
  have "length (take (length a) w @ rows) = length w" using a rows(1) by simp
  with w(1) have ne: "take (length a) w @ rows \<noteq> []" by auto
  have "list_all (\<lambda>row. length row = m) (take (length a) w)"
    using w(2) by (auto simp: list_all_iff dest: in_set_takeD)
  with rows(2) have rect: "list_all (\<lambda>row. length row = m) (take (length a) w @ rows)" by simp
  show ?thesis
    by (simp only: linear_rect[OF ne rect] linear_rect[OF w] accumulate_unread_rows[OF a])
qed

lemma forwardLayers_unread_rows:
  assumes w: "w \<noteq> []" "list_all (\<lambda>row. length row = m) w"
    and a: "length a \<le> length w"
    and rows: "length rows = length w - length a" "list_all (\<lambda>row. length row = m) rows"
  shows "forwardLayers ((take (length a) w @ rows) # ws) bs a pre acts =
         forwardLayers (w # ws) bs a pre acts"
  by (simp add: linear_unread_rows[OF w a rows])

lemma forwardLayers_too_long:
  "ws = w # ws' \<Longrightarrow> w \<noteq> [] \<Longrightarrow> list_all (\<lambda>row. length row = m) w \<Longrightarrow> length w < length a \<Longrightarrow>
     forwardLayers ws bs a pre acts = Inl TypeError"
  by (simp add: linear_too_long)

section \<open>The gradients that backward computes\<close>

lemma shaped_nth:
  "shaped ls ws bs \<Longrightarrow> i < length ws \<Longrightarrow>
     length (ws ! i) = ls ! i \<and> list_all (\<lambda>row. length row = ls ! Suc i) (ws ! i) \<and>
     length (bs ! i) = ls ! Suc i \<and> 0 < ls ! i"
proof (induction ls ws bs arbitrary: i rule: shaped.induct)
  case (1 n m ls w ws b bs)
  then show ?case by (cases i) simp_all
qed simp_all

lemma outerInto_exact:
  "length g = length a \<Longrightarrow> list_all (\<lambda>row. length row = length delta) g \<Longrightarrow>
     outerInto g a delta = Inr (outer a delta)"
proof (induction g a delta rule: outerInto.induct)
  case (1 g delta)
  then show ?case by (simp add: outer_def)
next
  case (2 a as delta)
  then show ?case by simp
next
  case (3 row g a as delta)
  then show ?case by (simp add: outer_def)
qed

lemma foldl_dot:
  "foldl (\<lambda>acc (d, w). acc + d * w) (s::real) (zip delta r) =
     s + sum_list (map2 (\<lambda>wk dk. wk * dk) r delta)"
proof (induction delta arbitrary: r s)
  case Nil
  then show ?case by simp
next
  case (Cons d delta)
  then show ?case by (cases r) (simp_all add: ac_simps)
qed

lemma dotRow_exact:
  "length r = length delta \<Longrightarrow>
     dotRow delta (Some r) = Inr (sum_list (map2 (\<lambda>wk dk. wk * dk) r delta))"
  by (simp add: dotRow_def foldl_dot)

lemma propagate_exact:
  "length W = n \<Longrightarrow> list_all (\<lambda>row. length row = length delta) W \<Longrightarrow>
     propagate n W delta = Inr (matVec W delta)"
proof (induction n arbitrary: W)
  case 0
  then show ?case by (simp add: matVec_def)
next
  case (Suc n)
  then obtain r W' where W: "W = r # W'" by (cases W) auto
  with Suc.prems have r: "length r = length delta" and rest: "length W' = n"
    "list_all (\<lambda>row. length row = length delta) W'" by simp_all
  from Suc.IH[OF rest] dotRow_exact[OF r] W show ?case
    by (simp add: matVec_def)
qed

lemma applyRelu_exact:
  "length zs = length newDelta \<Longrightarrow>
     applyRelu newDelta (Some zs) = Inr (map2 (\<lambda>v z. v * reluDerivative z) newDelta zs)"
  by (simp add: applyRelu_def reluDerivative_def zip_map2 case_prod_unfold)

lemma storedShapes_facts:
  assumes "storedShapes net"
  shows "length (layerSizes net) = Suc (length (weights net))"
    and "length (biases net) = length (weights net)"
    and "length (activations net) = Suc (length (weights net))"
    and "length (preActivations net) = length (weights net)"
    and "weights net \<noteq> []"
    and "i < length (weights net) \<Longrightarrow> length (weights net ! i) = layerSizes net ! i"
    and "i < length (weights net) \<Longrightarrow>
           list_all (\<lambda>row. length row = layerSizes net ! Suc i) (weights net ! i)"
    and "i \<le> length (weights net) \<Longrightarrow> length (activations net ! i) = layerSizes net ! i"
    and "i < length (weights net) \<Longrightarrow> length (preActivations net ! i) = layerSizes net ! Suc i"
proof -
  from assms have sh: "shaped (layerSizes net) (weights net) (biases net)"
    and two: "2 \<le> length (layerSizes net)"
    and acts: "list_all2 (\<lambda>v k. length v = k) (activations net) (layerSizes net)"
    and pre: "list_all2 (\<lambda>v k. length v = k) (preActivations net) (tl (layerSizes net))"
    by (simp_all add: storedShapes_def wellShaped_def)
  from shaped_lengths[OF sh] show len: "length (layerSizes net) = Suc (length (weights net))"
    and "length (biases net) = length (weights net)" by simp_all
  from acts len show alen: "length (activations net) = Suc (length (weights net))"
    by (auto dest: list_all2_lengthD)
  from pre len show plen: "length (preActivations net) = length (weights net)"
    by (auto dest: list_all2_lengthD)
  from two len show "weights net \<noteq> []" by auto
  show "i < length (weights net) \<Longrightarrow> length (weights net ! i) = layerSizes net ! i"
    using shaped_nth[OF sh] by simp
  show "i < length (weights net) \<Longrightarrow>
           list_all (\<lambda>row. length row = layerSizes net ! Suc i) (weights net ! i)"
    using shaped_nth[OF sh] by simp
  show "i \<le> length (weights net) \<Longrightarrow> length (activations net ! i) = layerSizes net ! i"
    using list_all2_nthD[OF acts, of i] alen by simp
  show "i < length (weights net) \<Longrightarrow> length (preActivations net ! i) = layerSizes net ! Suc i"
    using list_all2_nthD[OF pre, of i] plen len by (simp add: nth_tl)
qed

lemma deltaAt_last:
  "\<not> Suc i < length (weights net) \<Longrightarrow> deltaAt net dOut i = dOut"
  by (rule trans[OF deltaAt.simps]) simp

lemma deltaAt_step:
  "Suc i < length (weights net) \<Longrightarrow>
     deltaAt net dOut i =
       map2 (\<lambda>v z. v * reluDerivative z)
         (matVec (weights net ! Suc i) (deltaAt net dOut (Suc i))) (preActivations net ! i)"
  by (rule trans[OF deltaAt.simps]) simp

lemma deltaAt_length:
  assumes st: "storedShapes net" and out: "length dOut = last (layerSizes net)"
    and j: "j < length (weights net)"
  shows "length (deltaAt net dOut j) = layerSizes net ! Suc j"
proof -
  from j have "j \<le> length (weights net) - 1" by simp
  then show ?thesis
  proof (induction rule: inc_induct)
    case base
    have "layerSizes net \<noteq> []" using storedShapes_facts(1)[OF st] by auto
    then have "last (layerSizes net) = layerSizes net ! length (weights net)"
      using storedShapes_facts(1)[OF st] by (simp add: last_conv_nth)
    moreover have "deltaAt net dOut (length (weights net) - 1) = dOut"
      using j by (intro deltaAt_last) simp
    moreover have "Suc (length (weights net) - 1) = length (weights net)"
      using j by simp
    ultimately show ?case using out by simp
  next
    case (step n)
    then have n: "Suc n < length (weights net)" by simp
    have "length (weights net ! Suc n) = layerSizes net ! Suc n"
      using storedShapes_facts(6)[OF st n] .
    moreover have "length (preActivations net ! n) = layerSizes net ! Suc n"
      using storedShapes_facts(9)[OF st, of n] n by simp
    ultimately show ?case using n
      by (simp add: deltaAt_step[of n net dOut] matVec_def)
  qed
qed

lemma backLoop_correct:
  assumes st: "storedShapes net" and out: "length dOut = last (layerSizes net)"
  shows "i \<le> length (weights net) \<Longrightarrow> (0 < i \<longrightarrow> delta = deltaAt net dOut (i - 1)) \<Longrightarrow>
     backLoop net i delta wg bg =
       Inr (map (\<lambda>j. outer (activations net ! j) (deltaAt net dOut j)) [0..<i] @ wg,
            map (deltaAt net dOut) [0..<i] @ bg)"
proof (induction i arbitrary: delta wg bg)
  case 0
  then show ?case by simp
next
  case (Suc i)
  then have i: "i < length (weights net)" and delta: "delta = deltaAt net dOut i" by simp_all
  have dlen: "length delta = layerSizes net ! Suc i"
    using deltaAt_length[OF st out i] delta by simp
  have acts: "nth_opt (activations net) i = Some (activations net ! i)"
    using storedShapes_facts(3)[OF st] i by (simp add: nth_opt_def)
  have alen: "length (activations net ! i) = layerSizes net ! i"
    using storedShapes_facts(8)[OF st, of i] i by simp
  have wlen: "length (weights net ! i) = layerSizes net ! i"
    using storedShapes_facts(6)[OF st i] .
  have rows: "list_all (\<lambda>row. length row = length delta) (weights net ! i)"
    using storedShapes_facts(7)[OF st i] dlen by simp
  then have zrows: "list_all (\<lambda>row. length row = length delta)
      (map (\<lambda>row. replicate (length row) (0::real)) (weights net ! i))"
    by (simp add: list_all_iff)
  have g: "outerInto (map (\<lambda>row. replicate (length row) 0) (weights net ! i))
             (activations net ! i) delta = Inr (outer (activations net ! i) delta)"
    using outerInto_exact[OF _ zrows, of "activations net ! i"] alen wlen by simp
  show ?case
  proof (cases "0 < i")
    case True
    have pg: "propagate (length (activations net ! i)) (weights net ! i) delta =
        Inr (matVec (weights net ! i) delta)"
      using propagate_exact[OF _ rows] alen wlen by simp
    have pre: "nth_opt (preActivations net) (i - 1) = Some (preActivations net ! (i - 1))"
      using storedShapes_facts(4)[OF st] i by (simp add: nth_opt_def)
    have "length (preActivations net ! (i - 1)) = layerSizes net ! i"
      using storedShapes_facts(9)[OF st, of "i - 1"] i True by simp
    then have relu: "applyRelu (matVec (weights net ! i) delta) (Some (preActivations net ! (i - 1))) =
        Inr (map2 (\<lambda>v z. v * reluDerivative z) (matVec (weights net ! i) delta)
               (preActivations net ! (i - 1)))"
      using applyRelu_exact[of "preActivations net ! (i - 1)" "matVec (weights net ! i) delta"] wlen
      by (simp add: matVec_def)
    have nd: "map2 (\<lambda>v z. v * reluDerivative z) (matVec (weights net ! i) delta)
               (preActivations net ! (i - 1)) = deltaAt net dOut (i - 1)"
      using True i delta deltaAt_step[of "i - 1" net dOut] by simp
    have "backLoop net i (deltaAt net dOut (i - 1))
            (outer (activations net ! i) delta # wg) (delta # bg) =
          Inr (map (\<lambda>j. outer (activations net ! j) (deltaAt net dOut j)) [0..<i] @
                 outer (activations net ! i) delta # wg,
               map (deltaAt net dOut) [0..<i] @ delta # bg)"
      using Suc.IH[of "deltaAt net dOut (i - 1)"] i by simp
    then show ?thesis
      using True acts g pg pre relu nd delta by simp
  next
    case False
    then show ?thesis using acts g delta by simp
  qed
qed

lemma forward_stores:
  assumes ws: "wellShaped net0" and x: "length x = hd (layerSizes net0)"
  shows "\<exists>out net. forward net0 x = Inr (out, net) \<and> storedShapes net \<and>
           out = last (preActivations net) \<and> hd (activations net) = x \<and>
           net = net0 \<lparr> preActivations := preActivations net, activations := activations net \<rparr>"
proof -
  from ws have two: "2 \<le> length (layerSizes net0)"
    and sh: "shaped (layerSizes net0) (weights net0) (biases net0)"
    by (simp_all add: wellShaped_def)
  from two obtain n ls where ls: "layerSizes net0 = n # ls" by (cases "layerSizes net0") auto
  with x have "length x \<le> n" by simp
  from forwardLayers_shaped[OF sh[unfolded ls] this, of "[]" "[x]"] obtain out pre' acts' where
    fl: "forwardLayers (weights net0) (biases net0) x [] [x] = Inr (out, pre', x # acts')"
    and pre: "list_all2 (\<lambda>v k. length v = k) pre' ls"
    and acts: "list_all2 (\<lambda>v k. length v = k) acts' ls"
    and lst: "weights net0 \<noteq> [] \<longrightarrow> out = last pre' \<and> last acts' = last pre'"
    by auto
  from shaped_lengths[OF sh] two have wne: "weights net0 \<noteq> []" by auto
  with shaped_lengths[OF sh] ls acts have "acts' \<noteq> []"
    by (auto dest: list_all2_lengthD)
  with lst wne have l2: "out = last pre'" "last (x # acts') = last pre'" by simp_all
  define net where "net = net0 \<lparr> preActivations := pre', activations := x # acts' \<rparr>"
  have "forward net0 x = Inr (out, net)" using fl by (simp add: forward_def net_def)
  moreover have "storedShapes net"
    using ws pre acts l2 x ls by (simp add: storedShapes_def wellShaped_def net_def)
  ultimately show ?thesis using l2 by (auto simp: net_def)
qed

lemma output_delta_eq:
  assumes len: "length t = length zs" and s: "0 \<le> s"
  shows "map2 (\<lambda>d v. d * v) (map2 (lossGrad s) t (map clampProb (map sigmoid zs)))
       (map (\<lambda>val. val * (1 - val)) (map sigmoid zs)) =
     map2 (outputDelta s) t zs"
  using len
proof (induction t zs rule: list_induct2)
  case Nil
  then show ?case by simp
next
  case (Cons y t z zs)
  then show ?case using s by (cases "0 < s") (simp_all add: lossGrad_def outputDelta_def Let_def)
qed

lemma forward_keeps_sizes:
  assumes "wellShaped net0" and "length x = hd (layerSizes net0)"
    and "forward net0 x = Inr (out, net)"
  shows "storedShapes net \<and> layerSizes net = layerSizes net0 \<and> weights net = weights net0 \<and>
         biases net = biases net0 \<and> weightGrads net = weightGrads net0 \<and>
         biasGrads net = biasGrads net0 \<and> out = last (preActivations net)"
proof -
  from forward_stores[OF assms(1,2)] assms(3) have st: "storedShapes net"
    and o: "out = last (preActivations net)"
    and same: "net = net0 \<lparr> preActivations := preActivations net, activations := activations net \<rparr>"
    by auto
  from arg_cong[OF same, of layerSizes] have "layerSizes net = layerSizes net0" by simp
  moreover from arg_cong[OF same, of weights] have "weights net = weights net0" by simp
  moreover from arg_cong[OF same, of biases] have "biases net = biases net0" by simp
  moreover from arg_cong[OF same, of weightGrads] have "weightGrads net = weightGrads net0" by simp
  moreover from arg_cong[OF same, of biasGrads] have "biasGrads net = biasGrads net0" by simp
  ultimately show ?thesis using st o by simp
qed

lemma stored_output_length:
  assumes st: "storedShapes net"
  shows "length (last (preActivations net)) = last (layerSizes net)"
proof -
  from storedShapes_facts[OF st] have wne: "weights net \<noteq> []" by simp
  have "length (preActivations net ! (length (weights net) - 1)) = layerSizes net ! length (weights net)"
    using storedShapes_facts(9)[OF st, of "length (weights net) - 1"] wne by simp
  moreover have "last (preActivations net) = preActivations net ! (length (weights net) - 1)"
  proof -
    have "preActivations net \<noteq> []" using storedShapes_facts(4)[OF st] wne by auto
    then show ?thesis using storedShapes_facts(4)[OF st] by (simp add: last_conv_nth)
  qed
  moreover have "last (layerSizes net) = layerSizes net ! length (weights net)"
  proof -
    have "layerSizes net \<noteq> []" using storedShapes_facts(1)[OF st] by auto
    then show ?thesis using storedShapes_facts(1)[OF st] by (simp add: last_conv_nth)
  qed
  ultimately show ?thesis by simp
qed

lemma backward_stored:
  assumes st: "storedShapes net" and t: "length tgt = last (layerSizes net)" and s: "0 \<le> s"
  shows "\<exists>net'. backward net x' tgt s = Inr net' \<and>
           weightGrads net' =
             map (\<lambda>i. outer (activations net ! i)
                         (deltaAt net (map2 (outputDelta s) tgt (last (preActivations net))) i))
               [0..<length (weights net)] \<and>
           biasGrads net' =
             map (deltaAt net (map2 (outputDelta s) tgt (last (preActivations net))))
               [0..<length (weights net)]"
proof -
  from storedShapes_facts[OF st] have wne: "weights net \<noteq> []"
    and blen: "length (biases net) = length (weights net)"
    and alen: "length (activations net) = Suc (length (weights net))" by simp_all
  from st have lasteq: "last (activations net) = last (preActivations net)"
    by (simp add: storedShapes_def)
  have tlen: "length tgt = length (last (preActivations net))"
    using t stored_output_length[OF st] by simp
  define dOut where "dOut = map2 (outputDelta s) tgt (last (preActivations net))"
  have dlen: "length dOut = last (layerSizes net)" using tlen t by (simp add: dOut_def)
  have delta: "map2 (\<lambda>d v. d * v)
       (map2 (lossGrad s) tgt (map clampProb (map sigmoid (last (activations net)))))
       (map (\<lambda>val. val * (1 - val)) (map sigmoid (last (activations net)))) = dOut"
    using output_delta_eq[OF tlen s] lasteq by (simp add: dOut_def)
  have top: "dOut = deltaAt net dOut (length (weights net) - 1)"
    by (rule deltaAt_last[symmetric]) (use wne in simp)
  have loop: "backLoop net (length (weights net)) dOut [] [] =
      Inr (map (\<lambda>j. outer (activations net ! j) (deltaAt net dOut j)) [0..<length (weights net)] @ [],
           map (deltaAt net dOut) [0..<length (weights net)] @ [])"
    by (rule backLoop_correct[OF st dlen]) (use top in simp_all)
  have ane: "activations net \<noteq> []" using alen by auto
  show ?thesis
    unfolding dOut_def[symmetric]
    using ane tlen delta loop blen lasteq
    by (simp add: backward_def Let_def)
qed

text \<open>
  C1, as the code has it. On an engine on which \<open>forward\<close> has just run with an input of
  the input width, for a target of the output width and a strength \<open>s \<ge> 0\<close>, \<open>backward\<close>
  returns, and for every connection \<open>i\<close> the weight gradient is the outer product of
  activation \<open>i\<close> with the error signal of connection \<open>i\<close> and the bias gradient is that
  error signal. The output-layer signal is
  \<open>(-y/p + (1-y)/(1-p) + s*4*(1-2p)) * (sg*(1-sg))\<close> with \<open>sg\<close> the logistic value of the
  stored raw output and \<open>p\<close> its clamp into \<open>[1e-7, 1 - 1e-7]\<close>: the clamp enters the loss
  gradient only, the derivative factor is taken at \<open>sg\<close>.
\<close>

theorem backward_gradients:
  assumes ws: "wellShaped net0" and x: "length x = hd (layerSizes net0)"
    and fw: "forward net0 x = Inr (out, net)"
    and t: "length tgt = last (layerSizes net0)" and s: "0 \<le> s"
  shows "\<exists>net'. backward net x' tgt s = Inr net' \<and>
           weightGrads net' =
             map (\<lambda>i. outer (activations net ! i)
                         (deltaAt net (map2 (outputDelta s) tgt (last (preActivations net))) i))
               [0..<length (weights net)] \<and>
           biasGrads net' =
             map (deltaAt net (map2 (outputDelta s) tgt (last (preActivations net))))
               [0..<length (weights net)]"
proof -
  from forward_keeps_sizes[OF ws x fw] have st: "storedShapes net"
    and ls: "layerSizes net = layerSizes net0" by simp_all
  from t ls have "length tgt = last (layerSizes net)" by simp
  from backward_stored[OF st this s] show ?thesis .
qed

subsection \<open>The example engines\<close>

lemma exampleNet_wellShaped: "wellShaped exampleNet"
  by (simp add: wellShaped_def exampleNet_def)

lemma exampleNet_forward: "forward exampleNet [3, 3] = Inr ([0], exampleStored)"
  by (simp add: forward_def exampleNet_def exampleStored_def linear_def addScaled_def addBias_def Let_def)

lemma sigmoid_0: "sigmoid 0 = 1 / 2"
  by (simp add: sigmoid_def)

lemma exampleStored_backward:
  "backward exampleStored x [1] 0 =
     Inr (exampleStored \<lparr> weightGrads := [[[- 3 / 2, 3 / 2], [- 3 / 2, 3 / 2]], [[- 3 / 2], [- 3 / 2]]],
                          biasGrads := [[- 1 / 2, 1 / 2], [- 1 / 2]] \<rparr>)"
  by (simp add: backward_def exampleStored_def exampleNet_def sigmoid_0 clampProb_def eps_def
      lossGrad_def nth_opt_def dotRow_def applyRelu_def Let_def numeral_2_eq_2)

text \<open>The frame property C9 at \<open>exampleStored\<close>, where \<open>backward\<close> returns.\<close>

theorem backward_frame_witness:
  "backward exampleStored [3, 3] [1] 0 =
     Inr (exampleStored \<lparr> weightGrads := [[[- 3 / 2, 3 / 2], [- 3 / 2, 3 / 2]], [[- 3 / 2], [- 3 / 2]]],
                          biasGrads := [[- 1 / 2, 1 / 2], [- 1 / 2]] \<rparr>) \<and>
   weights (exampleStored \<lparr> weightGrads := [[[- 3 / 2, 3 / 2], [- 3 / 2, 3 / 2]], [[- 3 / 2], [- 3 / 2]]],
                          biasGrads := [[- 1 / 2, 1 / 2], [- 1 / 2]] \<rparr>) = weights exampleStored \<and>
   activations (exampleStored \<lparr> weightGrads := [[[- 3 / 2, 3 / 2], [- 3 / 2, 3 / 2]], [[- 3 / 2], [- 3 / 2]]],
                          biasGrads := [[- 1 / 2, 1 / 2], [- 1 / 2]] \<rparr>) = activations exampleStored"
  using backward_frame[OF exampleStored_backward[of "[3, 3]"]] exampleStored_backward[of "[3, 3]"]
  by simp

text \<open>The gradients of \<open>exampleStored\<close> for the target \<open>[1]\<close>, by the theorem and by evaluation.\<close>

theorem backward_gradients_witness:
  "wellShaped exampleNet \<and> length [3, 3 :: real] = hd (layerSizes exampleNet) \<and>
   forward exampleNet [3, 3] = Inr ([0], exampleStored) \<and>
   length [1 :: real] = last (layerSizes exampleNet) \<and> (0 :: real) \<le> 0 \<and>
   (\<exists>net'. backward exampleStored [3, 3] [1] 0 = Inr net' \<and>
      weightGrads net' = [[[- 3 / 2, 3 / 2], [- 3 / 2, 3 / 2]], [[- 3 / 2], [- 3 / 2]]] \<and>
      weightGrads net' =
             map (\<lambda>i. outer (activations exampleStored ! i)
                         (deltaAt exampleStored (map2 (outputDelta 0) [1] (last (preActivations exampleStored))) i))
               [0..<length (weights exampleStored)] \<and>
      biasGrads net' = [[- 1 / 2, 1 / 2], [- 1 / 2]] \<and>
      biasGrads net' =
             map (deltaAt exampleStored (map2 (outputDelta 0) [1] (last (preActivations exampleStored))))
               [0..<length (weights exampleStored)])"
proof -
  have a: "length [3, 3 :: real] = hd (layerSizes exampleNet)" by (simp add: exampleNet_def)
  have b: "length [1 :: real] = last (layerSizes exampleNet)" by (simp add: exampleNet_def)
  have c: "(0 :: real) \<le> 0" by simp
  from backward_gradients[OF exampleNet_wellShaped a exampleNet_forward b c, of "[3, 3]"]
  show ?thesis
    using exampleNet_wellShaped a exampleNet_forward b exampleStored_backward[of "[3, 3]"]
    by auto
qed

lemma sigmoid_steep: "0 < sigmoid (- 40) \<and> sigmoid (- 40) < 1 / 1000000000000"
proof -
  have "exp (40::real) = exp 1 ^ 40" using exp_of_nat_mult[of 40 "1::real"] by simp
  moreover have "(2::real) \<le> exp 1" using exp_ge_add_one_self[of "1::real"] by simp
  then have "(2::real) ^ 40 \<le> exp 1 ^ 40" by (rule power_mono) simp
  ultimately have "(1000000000000::real) < 1 + exp 40" by simp
  then have "1 / (1 + exp (40::real)) < 1 / 1000000000000"
    by (intro divide_strict_left_mono) simp_all
  moreover have "0 < 1 / (1 + exp (40::real))" by (simp add: add_pos_pos)
  ultimately show ?thesis by (simp add: sigmoid_def)
qed

lemma steep_deltas:
  "outputDelta 0 1 (- 40) \<noteq> claimedOutputDelta 0 1 (- 40)"
proof -
  define sg where "sg = sigmoid (- 40)"
  have sg: "0 < sg" "sg < 1 / 1000000000000" using sigmoid_steep by (simp_all add: sg_def)
  then have cl: "clampProb sg = 1 / 10000000" by (simp add: clampProb_def eps_def)
  have code: "outputDelta 0 1 (- 40) = - 10000000 * (sg * (1 - sg))"
    by (simp add: outputDelta_def sg_def[symmetric] Let_def cl)
  have claim: "claimedOutputDelta 0 1 (- 40) = - (1 - 1 / 10000000)"
    by (simp add: claimedOutputDelta_def sg_def[symmetric] Let_def cl)
  have "sg * (1 - sg) < 1 / 1000000000000"
  proof -
    have "sg * (1 - sg) \<le> sg * 1" using sg by (intro mult_left_mono) simp_all
    then have "sg * (1 - sg) \<le> sg" by simp
    then show ?thesis using sg(2) by (rule le_less_trans)
  qed
  then have "- 10000000 * (sg * (1 - sg)) > - (1 - 1 / 10000000)" by simp
  with code claim show ?thesis by simp
qed

lemma steepNet_forward: "forward steepNet [1] = Inr ([- 40], steepStored)"
  by (simp add: forward_def steepNet_def steepStored_def linear_def addScaled_def addBias_def Let_def)

lemma steepStored_backward:
  "backward steepStored x [1] 0 =
     Inr (steepStored \<lparr> weightGrads := [[[outputDelta 0 1 (- 40)]]],
                        biasGrads := [[outputDelta 0 1 (- 40)]] \<rparr>)"
  by (simp add: backward_def steepStored_def steepNet_def outputDelta_def lossGrad_def nth_opt_def Let_def)

text \<open>
  C1 as the claim states it, with the derivative factor \<open>p * (1 - p)\<close> at the clamped \<open>p\<close>,
  fails at \<open>steepStored\<close>: the bias gradient of the only connection is not the claimed
  output-layer signal.
\<close>

theorem backward_output_delta_counterexample:
  "wellShaped steepNet \<and> forward steepNet [1] = Inr ([- 40], steepStored) \<and>
   (\<exists>net'. backward steepStored [1] [1] 0 = Inr net' \<and>
      biasGrads net' ! 0 \<noteq> map2 (claimedOutputDelta 0) [1] (last (preActivations steepStored)))"
  using steepNet_forward steepStored_backward[of "[1]"] steep_deltas
  by (simp add: wellShaped_def steepNet_def steepStored_def)

section \<open>forward and the length of its input\<close>

text \<open>
  C3, as the code has it. \<open>forward\<close> does not compare the length of its input with the
  input width. On a well-shaped engine an input that is too long makes it throw a
  \<open>TypeError\<close> (it reads a row of the first weight matrix that is not there). An input that is
  too short makes it return: the input is stored as it is, as the activation of layer 0,
  and the loop over the input reads only the first \<open>x.length\<close> rows of the first weight
  matrix, so that the output is the same whatever the other rows are.
\<close>

theorem forward_length_mismatch:
  assumes ws: "wellShaped net"
  shows "(hd (layerSizes net) < length x \<longrightarrow> forward net x = Inl TypeError) \<and>
         (length x < hd (layerSizes net) \<longrightarrow>
            (\<exists>out net'. forward net x = Inr (out, net') \<and> hd (activations net') = x) \<and>
            (\<forall>rows. length rows = hd (layerSizes net) - length x \<and>
                    list_all (\<lambda>row. length row = layerSizes net ! 1) rows \<longrightarrow>
               map_sum id fst
                 (forward (net \<lparr> weights := (take (length x) (hd (weights net)) @ rows)
                                              # tl (weights net) \<rparr>) x) =
               map_sum id fst (forward net x)))"
proof -
  from ws have two: "2 \<le> length (layerSizes net)"
    and sh: "shaped (layerSizes net) (weights net) (biases net)"
    by (simp_all add: wellShaped_def)
  from two obtain n m ls where ls: "layerSizes net = n # m # ls"
    by (cases "layerSizes net"; cases "tl (layerSizes net)") auto
  with sh obtain w ws' where w: "weights net = w # ws'" "length w = n" "0 < n"
    "list_all (\<lambda>row. length row = m) w"
    by (cases "weights net"; cases "biases net") auto
  then have wne: "w \<noteq> []" by auto
  have long: "forward net x = Inl TypeError" if "n < length x"
    using forwardLayers_too_long[OF w(1) wne w(4), of x] that w(2) by (simp add: forward_def)
  have short1: "\<exists>out net'. forward net x = Inr (out, net') \<and> hd (activations net') = x"
    if "length x < n"
  proof -
    from that have le: "length x \<le> n" by simp
    from forwardLayers_shaped[OF sh[unfolded ls] le, of "[]" "[x]"] show ?thesis
      by (auto simp: forward_def)
  qed
  have short2: "map_sum id fst
                 (forward (net \<lparr> weights := (take (length x) w @ rows) # ws' \<rparr>) x) =
               map_sum id fst (forward net x)"
    if "length x < n" and "length rows = n - length x"
      and "list_all (\<lambda>row. length row = m) rows" for rows
  proof -
    have le: "length x \<le> length w" using that(1) w(2) by simp
    have r: "length rows = length w - length x" using that(2) w(2) by simp
    from forwardLayers_unread_rows[OF wne w(4) le r that(3), of ws' "biases net" "[]" "[x]"]
    show ?thesis by (simp add: forward_def w(1) split: sum.splits)
  qed
  from long short1 short2 ls w(1) show ?thesis by simp
qed

text \<open>
  C3 as the claim states it fails at \<open>exampleNet\<close>, whose input width is 2: the input
  \<open>[3]\<close> is accepted, and the missing entry counts as nothing.
\<close>

theorem forward_short_input_counterexample:
  "wellShaped exampleNet \<and> length [3 :: real] \<noteq> hd (layerSizes exampleNet) \<and>
   forward exampleNet [3] =
     Inr ([3], exampleNet \<lparr> preActivations := [[3, 0], [3]], activations := [[3], [3, 0], [3]] \<rparr>)"
  by (simp add: wellShaped_def forward_def exampleNet_def linear_def addScaled_def addBias_def Let_def)

text \<open>
  Both cases of the theorem at \<open>exampleNet\<close>; in the second, the row of the missing input
  is replaced by \<open>[7, 9]\<close>.
\<close>

theorem forward_length_mismatch_witness:
  "wellShaped exampleNet \<and>
   hd (layerSizes exampleNet) < length [3, 3, 1 :: real] \<and>
   forward exampleNet [3, 3, 1] = Inl TypeError \<and>
   length [3 :: real] < hd (layerSizes exampleNet) \<and>
   (\<exists>out net'. forward exampleNet [3] = Inr (out, net') \<and> hd (activations net') = [3]) \<and>
   length [[7, 9 :: real]] = hd (layerSizes exampleNet) - length [3 :: real] \<and>
   list_all (\<lambda>row. length row = layerSizes exampleNet ! 1) [[7, 9 :: real]] \<and>
   map_sum id fst (forward (exampleNet \<lparr> weights := [[[1, 0], [7, 9]], [[1], [- 1]]] \<rparr>) [3]) =
     map_sum id fst (forward exampleNet [3])"
proof -
  note long = forward_length_mismatch[OF exampleNet_wellShaped, of "[3, 3, 1]"]
  note short = forward_length_mismatch[OF exampleNet_wellShaped, of "[3]"]
  have a: "hd (layerSizes exampleNet) < length [3, 3, 1 :: real]"
    and b: "length [3 :: real] < hd (layerSizes exampleNet)"
    and c: "length [[7, 9 :: real]] = hd (layerSizes exampleNet) - length [3 :: real]"
    and d: "list_all (\<lambda>row. length row = layerSizes exampleNet ! 1) [[7, 9 :: real]]"
    and e: "(take (length [3 :: real]) (hd (weights exampleNet)) @ [[7, 9]]) # tl (weights exampleNet) =
            [[[1, 0], [7, 9]], [[1], [- 1]]]"
    by (simp_all add: exampleNet_def)
  from long a have l: "forward exampleNet [3, 3, 1] = Inl TypeError" by blast
  from short b have s1: "\<exists>out net'. forward exampleNet [3] = Inr (out, net') \<and> hd (activations net') = [3]"
    by blast
  from short b c d have "map_sum id fst
        (forward (exampleNet \<lparr> weights := (take (length [3 :: real]) (hd (weights exampleNet)) @ [[7, 9]])
                                           # tl (weights exampleNet) \<rparr>) [3]) =
      map_sum id fst (forward exampleNet [3])"
    by blast
  then have s2: "map_sum id fst (forward (exampleNet \<lparr> weights := [[[1, 0], [7, 9]], [[1], [- 1]]] \<rparr>) [3]) =
     map_sum id fst (forward exampleNet [3])"
    by (simp only: e)
  from exampleNet_wellShaped a l b s1 c d s2 show ?thesis by blast
qed

section \<open>The draws of the seeded generator\<close>

lemma and_low16: "(word_of_int s :: 32 word) AND 65535 = word_of_int (s mod 65536)"
proof -
  have "(65535 :: 32 word) = word_of_int (mask 16)" by (simp add: mask_eq_exp_minus_1)
  then have "(word_of_int s :: 32 word) AND 65535 = word_of_int (s AND mask 16)"
    by (simp add: of_int_and_eq)
  also have "s AND mask 16 = s mod 65536"
    by (simp add: take_bit_eq_mask[symmetric] take_bit_eq_mod)
  finally show ?thesis .
qed

lemma sint_int32: "int32 s \<Longrightarrow> sint (word_of_int s :: 32 word) = s"
  by (simp add: int32_def sint_sbintrunc' signed_take_bit_int_eq_self)

lemma signed_drop_16:
  assumes "int32 s"
  shows "signed_drop_bit 16 (word_of_int s :: 32 word) = word_of_int (s div 65536)"
proof -
  have "sint (signed_drop_bit 16 (word_of_int s :: 32 word)) = s div 65536"
    by (simp add: sint_signed_drop_bit_eq sint_int32[OF assms] drop_bit_eq_div)
  then have "word_of_int (sint (signed_drop_bit 16 (word_of_int s :: 32 word))) =
      (word_of_int (s div 65536) :: 32 word)"
    by simp
  then show ?thesis by (simp add: scast_eq[symmetric] del: sint_signed_drop_bit_eq)
qed

lemma unat_word_of_int_32: "unat (word_of_int x :: 32 word) = nat (x mod 4294967296)"
  by (simp add: unat_eq_nat_uint uint_word_of_int take_bit_eq_mod)

lemma word_of_laneInt:
  "(word_of_int (laneInt a s) :: 32 word) = word_of_int (a * (s mod 65536) + s div 65536)"
  by (simp add: laneInt_def Let_def)

lemma laneInt_int32:
  assumes "int32 s" and "0 \<le> a" and "a \<le> 36969"
  shows "int32 (laneInt a s)"
proof -
  define y where "y = a * (s mod 65536) + s div 65536"
  have lo: "0 \<le> s mod 65536" "s mod 65536 \<le> 65535" by simp_all
  have "(- 2147483648) div 65536 \<le> s div 65536"
    by (rule zdiv_mono1) (use assms(1) in \<open>simp_all add: int32_def\<close>)
  then have hi1: "- 32768 \<le> s div 65536" by simp
  have "s div 65536 \<le> 2147483647 div 65536"
    by (rule zdiv_mono1) (use assms(1) in \<open>simp_all add: int32_def\<close>)
  then have hi2: "s div 65536 \<le> 32767" by simp
  have p1: "0 \<le> a * (s mod 65536)" using assms(2) lo(1) by simp
  have "a * (s mod 65536) \<le> 36969 * 65535"
    using mult_mono[OF assms(3) lo(2)] assms(2) lo(1) by simp
  then have p2: "a * (s mod 65536) \<le> 2422763415" by simp
  have y1: "- 32768 \<le> y" using p1 hi1 unfolding y_def by linarith
  have y2: "y \<le> 2422796182" using p2 hi2 unfolding y_def by linarith
  have "laneInt a s = (if 2147483648 \<le> y then y - 4294967296 else y)"
    by (simp add: laneInt_def y_def Let_def)
  then show ?thesis using y1 y2 by (simp add: int32_def)
qed

lemma random_Mwc_int:
  assumes w: "int32 w" and z: "int32 z"
  shows "random (Mwc (word_of_int w) (word_of_int z)) =
     (real_of_int ((laneInt 36969 z * 65536 + laneInt 18000 w mod 65536) mod 4294967296) / 4294967296,
      Mwc (word_of_int (laneInt 18000 w)) (word_of_int (laneInt 36969 z)))"
proof -
  have mz: "36969 * ((word_of_int z :: 32 word) AND 65535) + signed_drop_bit 16 (word_of_int z) =
      word_of_int (laneInt 36969 z)"
    by (simp add: and_low16 signed_drop_16[OF z] word_of_laneInt)
  have mw: "18000 * ((word_of_int w :: 32 word) AND 65535) + signed_drop_bit 16 (word_of_int w) =
      word_of_int (laneInt 18000 w)"
    by (simp add: and_low16 signed_drop_16[OF w] word_of_laneInt)
  have res: "push_bit 16 (word_of_int (laneInt 36969 z) :: 32 word) +
      ((word_of_int (laneInt 18000 w) :: 32 word) AND 65535) =
      word_of_int (laneInt 36969 z * 65536 + laneInt 18000 w mod 65536)"
    by (simp add: and_low16 push_bit_eq_mult)
  have un: "real (unat (word_of_int (laneInt 36969 z * 65536 + laneInt 18000 w mod 65536) :: 32 word)) =
      real_of_int ((laneInt 36969 z * 65536 + laneInt 18000 w mod 65536) mod 4294967296)"
    by (subst unat_word_of_int_32) simp
  show ?thesis by (simp only: random.simps Let_def mz mw res un)
qed

lemma advance_Suc: "advance (Suc n) g = advance n (snd (random g))"
  by (simp add: advance_def funpow_Suc_right del: funpow.simps)

lemma advance_add: "advance m (advance n g) = advance (m + n) g"
  by (simp add: advance_def funpow_add)

lemma advance_Mwc_int:
  "int32 w \<Longrightarrow> int32 z \<Longrightarrow>
     advance n (Mwc (word_of_int w) (word_of_int z)) =
       Mwc (word_of_int (fst (lanesInt n (w, z)))) (word_of_int (snd (lanesInt n (w, z)))) \<and>
     int32 (fst (lanesInt n (w, z))) \<and> int32 (snd (lanesInt n (w, z)))"
proof (induction n arbitrary: w z)
  case 0
  then show ?case by (simp add: advance_def)
next
  case (Suc n)
  have "int32 (laneInt 18000 w)" "int32 (laneInt 36969 z)"
    using Suc.prems by (simp_all add: laneInt_int32)
  from Suc.IH[OF this] show ?case
    by (simp add: advance_Suc random_Mwc_int[OF Suc.prems] del: random.simps)
qed

lemma lanesInt_numeral:
  "lanesInt (numeral k) s = lanesInt (pred_numeral k) (laneInt 18000 (fst s), laneInt 36969 (snd s))"
  by (simp add: numeral_eq_Suc)

lemma lanesInt_add: "lanesInt (m + n) s = lanesInt n (lanesInt m s)"
  by (induction m arbitrary: s) simp_all

subsection \<open>Seed 4614579\<close>

text \<open>The two lanes of seed 4614579, every hundred calls up to call 867.\<close>

lemma zero_seed_lanes_100: "lanesInt 100 (- 979256464, 897080448) = (900110432, 139490783)"
  by (simp add: lanesInt_numeral laneInt_def Let_def)

lemma zero_seed_lanes_200: "lanesInt 100 (900110432, 139490783) = (974218507, 1304699051)"
  by (simp add: lanesInt_numeral laneInt_def Let_def)

lemma zero_seed_lanes_300: "lanesInt 100 (974218507, 1304699051) = (256758027, 749068233)"
  by (simp add: lanesInt_numeral laneInt_def Let_def)

lemma zero_seed_lanes_400: "lanesInt 100 (256758027, 749068233) = (497194830, 2012749485)"
  by (simp add: lanesInt_numeral laneInt_def Let_def)

lemma zero_seed_lanes_500: "lanesInt 100 (497194830, 2012749485) = (1138388430, 1822953868)"
  by (simp add: lanesInt_numeral laneInt_def Let_def)

lemma zero_seed_lanes_600: "lanesInt 100 (1138388430, 1822953868) = (3361706, 410546500)"
  by (simp add: lanesInt_numeral laneInt_def Let_def)

lemma zero_seed_lanes_700: "lanesInt 100 (3361706, 410546500) = (427567997, 1123514013)"
  by (simp add: lanesInt_numeral laneInt_def Let_def)

lemma zero_seed_lanes_800: "lanesInt 100 (427567997, 1123514013) = (1014437732, 406457247)"
  by (simp add: lanesInt_numeral laneInt_def Let_def)

lemma zero_seed_lanes_867: "lanesInt 67 (1014437732, 406457247) = (444268544, - 2037186560)"
  by (simp add: lanesInt_numeral laneInt_def Let_def)

lemma zero_seed_lanes: "lanesInt 867 (- 979256464, 897080448) = (444268544, - 2037186560)"
proof -
  have "lanesInt (100 + 100 + 100 + 100 + 100 + 100 + 100 + 100 + 67) (- 979256464, 897080448) = (444268544, - 2037186560)"
    by (simp only: lanesInt_add zero_seed_lanes_100 zero_seed_lanes_200 zero_seed_lanes_300 zero_seed_lanes_400 zero_seed_lanes_500 zero_seed_lanes_600 zero_seed_lanes_700 zero_seed_lanes_800 zero_seed_lanes_867)
  then show ?thesis by simp
qed

section \<open>The weights of a new engine\<close>

lemma random_draw: "random g = (drawAt g 0, advance (Suc 0) g)"
  by (simp add: drawAt_def advance_def)

lemma drawAt_advance: "drawAt (advance n g) k = drawAt g (k + n)"
  by (simp add: drawAt_def advance_add)

lemma advance_twice: "advance (Suc 0) (advance (Suc 0) g) = advance 2 g"
  by (simp add: advance_add numeral_2_eq_2)

lemma initRow_eq:
  "initRow n scale g =
     (map (\<lambda>k. boxMuller (drawAt g (2 * k)) (drawAt g (2 * k + 1)) * scale) [0..<n],
      advance (2 * n) g)"
proof (induction n arbitrary: g)
  case 0
  then show ?case by (simp add: advance_def)
next
  case (Suc n)
  have "initRow (Suc n) scale g =
      ((boxMuller (drawAt g 0) (drawAt g 1) * scale) # fst (initRow n scale (advance 2 g)),
       snd (initRow n scale (advance 2 g)))"
    by (simp add: random_draw advance_twice drawAt_advance case_prod_unfold Let_def)
  also have "\<dots> =
      ((boxMuller (drawAt g 0) (drawAt g 1) * scale) #
         map (\<lambda>k. boxMuller (drawAt g (2 * Suc k)) (drawAt g (2 * Suc k + 1)) * scale) [0..<n],
       advance (2 * Suc n) g)"
    by (simp add: Suc.IH drawAt_advance advance_add)
  also have "\<dots> =
      (map (\<lambda>k. boxMuller (drawAt g (2 * k)) (drawAt g (2 * k + 1)) * scale) [0..<Suc n],
       advance (2 * Suc n) g)"
    by (simp add: map_upt_Suc del: upt_Suc)
  finally show ?case .
qed

lemma initMatrix_eq:
  "initMatrix j m scale g =
     (map (\<lambda>r. map (\<lambda>k. boxMuller (drawAt g (2 * (r * m + k))) (drawAt g (2 * (r * m + k) + 1)) * scale)
                [0..<m]) [0..<j],
      advance (2 * (j * m)) g)"
proof (induction j arbitrary: g)
  case 0
  then show ?case by (simp add: advance_def)
next
  case (Suc j)
  have "initMatrix (Suc j) m scale g =
      (map (\<lambda>k. boxMuller (drawAt g (2 * k)) (drawAt g (2 * k + 1)) * scale) [0..<m] #
         fst (initMatrix j m scale (advance (2 * m) g)),
       snd (initMatrix j m scale (advance (2 * m) g)))"
    by (simp add: initRow_eq case_prod_unfold Let_def)
  also have "\<dots> =
      (map (\<lambda>k. boxMuller (drawAt g (2 * k)) (drawAt g (2 * k + 1)) * scale) [0..<m] #
         map (\<lambda>r. map (\<lambda>k. boxMuller (drawAt g (2 * (Suc r * m + k))) (drawAt g (2 * (Suc r * m + k) + 1)) * scale)
                [0..<m]) [0..<j],
       advance (2 * (Suc j * m)) g)"
    by (simp add: Suc.IH drawAt_advance advance_add algebra_simps)
  also have "\<dots> =
      (map (\<lambda>r. map (\<lambda>k. boxMuller (drawAt g (2 * (r * m + k))) (drawAt g (2 * (r * m + k) + 1)) * scale)
                [0..<m]) [0..<Suc j],
       advance (2 * (Suc j * m)) g)"
    by (simp add: map_upt_Suc del: upt_Suc)
  finally show ?case .
qed

lemma weightsBefore_Cons:
  "weightsBefore (n # m # rest) (Suc i) = n * m + weightsBefore (m # rest) i"
  by (induction i) simp_all

lemma initLayers_nth:
  "Suc i < length sizes \<Longrightarrow> j < sizes ! i \<Longrightarrow> k < sizes ! Suc i \<Longrightarrow>
     fst (initLayers sizes g) ! i ! j ! k =
       boxMuller (drawAt g (2 * weightNumber sizes i j k))
                 (drawAt g (2 * weightNumber sizes i j k + 1)) * sqrt (2 / real (sizes ! i))"
proof (induction sizes g arbitrary: i rule: initLayers.induct)
  case (1 n m rest g)
  define g1 where "g1 = advance (2 * (n * m)) g"
  have unfold: "fst (initLayers (n # m # rest) g) =
      fst (initMatrix n m (sqrt (2 / real n)) g) # fst (initLayers (m # rest) g1)"
    by (simp add: initMatrix_eq case_prod_unfold Let_def g1_def)
  show ?case
  proof (cases i)
    case 0
    with "1.prems" show ?thesis
      by (simp add: unfold initMatrix_eq weightNumber_def del: initLayers.simps)
  next
    case (Suc i')
    have ih: "fst (initLayers (m # rest) g1) ! i' ! j ! k =
       boxMuller (drawAt g1 (2 * weightNumber (m # rest) i' j k))
                 (drawAt g1 (2 * weightNumber (m # rest) i' j k + 1)) * sqrt (2 / real ((m # rest) ! i'))"
      using "1.IH"[of "sqrt (2 / real n)" "initMatrix n m (sqrt (2 / real n)) g"
          "fst (initMatrix n m (sqrt (2 / real n)) g)" g1 i'] "1.prems" Suc
      by (simp add: initMatrix_eq g1_def)
    have "weightNumber (n # m # rest) (Suc i') j k = n * m + weightNumber (m # rest) i' j k"
      by (simp add: weightNumber_def weightsBefore_Cons del: weightsBefore.simps)
    with ih Suc show ?thesis
      by (simp add: unfold g1_def drawAt_advance algebra_simps del: initLayers.simps)
  qed
qed simp_all

lemma initLayers_biases:
  "snd (initLayers sizes g) = map (\<lambda>i. replicate (sizes ! Suc i) 0) [0..<length sizes - 1]"
proof (induction sizes g rule: initLayers.induct)
  case (1 n m rest g)
  have "snd (initLayers (n # m # rest) g) =
      replicate m 0 # snd (initLayers (m # rest) (snd (initMatrix n m (sqrt (2 / real n)) g)))"
    by (simp add: case_prod_unfold Let_def)
  also have "\<dots> = replicate m 0 # map (\<lambda>i. replicate ((m # rest) ! Suc i) 0) [0..<length rest]"
    using "1.IH"[of "sqrt (2 / real n)" "initMatrix n m (sqrt (2 / real n)) g"
          "fst (initMatrix n m (sqrt (2 / real n)) g)" "snd (initMatrix n m (sqrt (2 / real n)) g)"]
    by simp
  also have "\<dots> = map (\<lambda>i. replicate ((n # m # rest) ! Suc i) 0) [0..<Suc (length rest)]"
    by (simp add: map_upt_Suc del: upt_Suc)
  finally show ?case by simp
qed simp_all

lemma initLayers_shaped:
  "sizes \<noteq> [] \<Longrightarrow> list_all (\<lambda>n. 0 < n) sizes \<Longrightarrow>
     shaped sizes (fst (initLayers sizes g)) (snd (initLayers sizes g))"
proof (induction sizes g rule: initLayers.induct)
  case (1 n m rest g)
  have "shaped (m # rest) (fst (initLayers (m # rest) (snd (initMatrix n m (sqrt (2 / real n)) g))))
          (snd (initLayers (m # rest) (snd (initMatrix n m (sqrt (2 / real n)) g))))"
    using "1.IH"[of "sqrt (2 / real n)" "initMatrix n m (sqrt (2 / real n)) g"
          "fst (initMatrix n m (sqrt (2 / real n)) g)" "snd (initMatrix n m (sqrt (2 / real n)) g)"]
      "1.prems" by simp
  then show ?case using "1.prems"
    by (simp add: case_prod_unfold Let_def initMatrix_eq list_all_iff)
qed simp_all

subsection \<open>The seeded state on integers\<close>

lemma word_of_int_mod_32: "(word_of_int (x mod 4294967296) :: 32 word) = word_of_int x"
  unfolding word_of_int_eq_iff take_bit_eq_mod by simp

lemma word_of_int_zero_iff: "((word_of_int x :: 32 word) = 0) = (x mod 4294967296 = 0)"
  using word_of_int_eq_iff[of x 0, where ?'a = 32] unfolding take_bit_eq_mod by simp

lemma word_of_int_wrap: "(word_of_int (m - 4294967296) :: 32 word) = word_of_int m"
  unfolding word_of_int_eq_iff take_bit_eq_mod by simp

lemma seedInt_word:
  "(let m = (word_of_int (seed * a + c) :: 32 word) in if m = 0 then 1 else m) =
     word_of_int (seedInt a c seed)"
proof (cases "(seed * a + c) mod 4294967296 = 0")
  case True
  then show ?thesis
    by (simp only: seedInt_def Let_def word_of_int_zero_iff) simp
next
  case False
  define m where "m = (seed * a + c) mod 4294967296"
  have "(word_of_int (seedInt a c seed) :: 32 word) = word_of_int m"
    using False
    by (cases "2147483648 \<le> m")
       (simp_all only: seedInt_def Let_def m_def[symmetric] if_False if_True word_of_int_wrap)
  also have "\<dots> = word_of_int (seed * a + c)"
    by (simp only: m_def word_of_int_mod_32)
  finally show ?thesis using False
    by (simp only: Let_def word_of_int_zero_iff if_False)
qed

lemma seedInt_int32: "int32 (seedInt a c seed)"
proof -
  define m where "m = (seed * a + c) mod 4294967296"
  have "0 \<le> m" "m < 4294967296" by (simp_all add: m_def)
  then show ?thesis by (simp add: seedInt_def Let_def int32_def m_def[symmetric])
qed

lemma seedLanes_int:
  "seedLanes seed =
     Mwc (word_of_int (seedInt 1103515245 12345 seed)) (word_of_int (seedInt 134775813 1 seed))"
  using seedInt_word[of seed 1103515245 12345] seedInt_word[of seed 134775813 1]
  by (simp only: seedLanes_def Let_def)

lemma lanesInt_Suc_right:
  "lanesInt (Suc n) s = (laneInt 18000 (fst (lanesInt n s)), laneInt 36969 (snd (lanesInt n s)))"
  using lanesInt_add[of n 1 s] by simp

lemma drawAt_seeded:
  "drawAt (seededRandom seed) k =
     real_of_int
       ((snd (lanesInt (k + 11) (seedInt 1103515245 12345 seed, seedInt 134775813 1 seed)) * 65536 +
         fst (lanesInt (k + 11) (seedInt 1103515245 12345 seed, seedInt 134775813 1 seed)) mod 65536)
        mod 4294967296) / 4294967296"
proof -
  define s0 where "s0 = (seedInt 1103515245 12345 seed, seedInt 134775813 1 seed)"
  have i1: "int32 (seedInt 1103515245 12345 seed)" and i2: "int32 (seedInt 134775813 1 seed)"
    by (rule seedInt_int32)+
  have "advance k (seededRandom seed) = advance (k + 10) (seedLanes seed)"
    by (simp add: seededRandom_def advance_def[symmetric] advance_add)
  also have "\<dots> = Mwc (word_of_int (fst (lanesInt (k + 10) s0))) (word_of_int (snd (lanesInt (k + 10) s0)))"
    using advance_Mwc_int[OF i1 i2, of "k + 10"]
    by (simp add: seedLanes_int s0_def)
  finally have adv: "advance k (seededRandom seed) =
      Mwc (word_of_int (fst (lanesInt (k + 10) s0))) (word_of_int (snd (lanesInt (k + 10) s0)))" .
  have r: "int32 (fst (lanesInt (k + 10) s0))" "int32 (snd (lanesInt (k + 10) s0))"
    using advance_Mwc_int[OF i1 i2, of "k + 10"]
    by (simp_all add: s0_def)
  have "k + 11 = Suc (k + 10)" by simp
  then have "lanesInt (k + 11) s0 =
      (laneInt 18000 (fst (lanesInt (k + 10) s0)), laneInt 36969 (snd (lanesInt (k + 10) s0)))"
    by (simp only: lanesInt_Suc_right)
  then show ?thesis
    unfolding drawAt_def adv random_Mwc_int[OF r] s0_def[symmetric] by simp
qed

lemma seedInt_4614579:
  "seedInt 1103515245 12345 4614579 = - 979256464" "seedInt 134775813 1 4614579 = 897080448"
  by (simp_all add: seedInt_def Let_def)

lemma zero_draw: "drawAt (seededRandom 4614579) 856 = 0"
  by (simp add: drawAt_seeded seedInt_4614579 zero_seed_lanes)

subsection \<open>The weights and their draws\<close>

lemma Network_new_weights:
  "fst (initLayers sizes (seededRandom seed)) = weights (Network_new sizes (Some seed) mathRandom) \<and>
   snd (initLayers sizes (seededRandom seed)) = biases (Network_new sizes (Some seed) mathRandom)"
  by (simp add: Network_new_def case_prod_unfold Let_def)

text \<open>
  C2, as the code has it. In an engine constructed from a topology and a seed, weight
  \<open>[i][j][k]\<close> is \<open>z * sqrt(2 / fanIn)\<close> with \<open>fanIn\<close> the width of layer \<open>i\<close> and
  \<open>z = sqrt(-2 ln u1) * cos(2 pi u2)\<close>, where \<open>u1\<close>, \<open>u2\<close> are two consecutive draws of the
  seeded generator, the draws \<open>2m\<close> and \<open>2m + 1\<close> after the warm-up when \<open>m\<close> weights are
  sampled before this one; \<open>u1\<close> is used as drawn. Every bias is \<open>0\<close>. The weight is stated
  where \<open>u1\<close> is positive: at \<open>u1 = 0\<close> the source computes with \<open>-Infinity\<close>.
\<close>

theorem constructor_weights:
  assumes "Suc i < length sizes" and "j < sizes ! i" and "k < sizes ! Suc i"
    and "u1 = drawAt (seededRandom seed) (2 * weightNumber sizes i j k)"
    and "u2 = drawAt (seededRandom seed) (2 * weightNumber sizes i j k + 1)"
    and "0 < u1"
  shows "weights (Network_new sizes (Some seed) mathRandom) ! i ! j ! k =
           sqrt (- 2 * ln u1) * cos (2 * pi * u2) * sqrt (2 / real (sizes ! i)) \<and>
         biases (Network_new sizes (Some seed) mathRandom) =
           map (\<lambda>i. replicate (sizes ! Suc i) 0) [0..<length sizes - 1]"
  using initLayers_nth[OF assms(1-3), of "seededRandom seed"] assms(4,5)
    Network_new_weights[of sizes seed mathRandom] initLayers_biases[of sizes "seededRandom seed"]
  by (simp add: boxMuller_def)

lemma seedInt_123:
  "seedInt 1103515245 12345 123 = - 1706565992" "seedInt 134775813 1 123 = - 602444184"
  by (simp_all add: seedInt_def Let_def)

lemma lanes_123: "lanesInt 11 (- 1706565992, - 602444184) = (103050082, 725731566)" "lanesInt 12 (- 1706565992, - 602444184) = (494821572, 1901622495)"
  by (simp_all add: lanesInt_numeral laneInt_def Let_def)

lemma draws_123:
  "drawAt (seededRandom 123) 0 = 3371068258 / 4294967296"
  "drawAt (seededRandom 123) (Suc 0) = 1960796356 / 4294967296"
  by (simp_all add: drawAt_seeded seedInt_123 lanes_123)

text \<open>The first weight and the biases of the engine of topology \<open>[2, 4, 1]\<close> seeded with 123.\<close>

theorem constructor_weights_witness:
  "Suc 0 < length [2, 4, 1 :: nat] \<and> 0 < [2, 4, 1 :: nat] ! 0 \<and> 0 < [2, 4, 1 :: nat] ! Suc 0 \<and>
   drawAt (seededRandom 123) (2 * weightNumber [2, 4, 1] 0 0 0) = 3371068258 / 4294967296 \<and>
   drawAt (seededRandom 123) (2 * weightNumber [2, 4, 1] 0 0 0 + 1) = 1960796356 / 4294967296 \<and>
   (0 :: real) < 3371068258 / 4294967296 \<and>
   weights (Network_new [2, 4, 1] (Some 123) (\<lambda>n. 0)) ! 0 ! 0 ! 0 =
     sqrt (- 2 * ln (3371068258 / 4294967296)) * cos (2 * pi * (1960796356 / 4294967296)) * sqrt (2 / real ([2, 4, 1] ! 0)) \<and>
   biases (Network_new [2, 4, 1] (Some 123) (\<lambda>n. 0)) = [[0, 0, 0, 0], [0]]"
proof -
  have a: "Suc 0 < length [2, 4, 1 :: nat]" "0 < [2, 4, 1 :: nat] ! 0" "0 < [2, 4, 1 :: nat] ! Suc 0"
    by simp_all
  have u1: "3371068258 / 4294967296 = drawAt (seededRandom 123) (2 * weightNumber [2, 4, 1] 0 0 0)"
    by (simp add: weightNumber_def draws_123)
  have u2: "1960796356 / 4294967296 = drawAt (seededRandom 123) (2 * weightNumber [2, 4, 1] 0 0 0 + 1)"
    by (simp add: weightNumber_def draws_123)
  have pos: "(0 :: real) < 3371068258 / 4294967296" by simp
  have bz: "map (\<lambda>i. replicate ([2, 4, 1 :: nat] ! Suc i) (0 :: real)) [0..<length [2, 4, 1 :: nat] - 1] =
      [[0, 0, 0, 0], [0]]"
    by (simp add: numeral_2_eq_2 numeral_Bit0 upt_rec)
  note c = constructor_weights[OF a u1 u2 pos, of "\<lambda>n. 0", unfolded bz]
  from a u1[symmetric] u2[symmetric] pos c show ?thesis by blast
qed

text \<open>
  C2 as the claim states it fails for the topology \<open>[2, 215, 1]\<close> and the seed 4614579:
  call 867 of the generator, the \<open>u1\<close> of weight \<open>[0][1][213]\<close>, returns exactly \<open>0\<close>, and the
  constructor takes the logarithm of it as it is.
\<close>

theorem constructor_log_at_zero_counterexample:
  "drawAt (seededRandom 4614579) (2 * weightNumber [2, 215, 1] 0 1 213) = 0 \<and>
   weights (Network_new [2, 215, 1] (Some 4614579) (\<lambda>n. 0)) ! 0 ! 1 ! 213 =
     sqrt (- 2 * ln 0) *
     cos (2 * pi * drawAt (seededRandom 4614579) (2 * weightNumber [2, 215, 1] 0 1 213 + 1)) *
     sqrt (2 / real ([2, 215, 1] ! 0))"
proof -
  have n: "2 * weightNumber [2, 215, 1] 0 1 213 = 856" by (simp add: weightNumber_def)
  have a: "Suc 0 < length [2, 215, 1 :: nat]" "1 < [2, 215, 1 :: nat] ! 0"
    "213 < [2, 215, 1 :: nat] ! Suc 0" by simp_all
  from initLayers_nth[OF a, of "seededRandom 4614579"] Network_new_weights[of "[2, 215, 1]" 4614579 "\<lambda>n. 0"]
  show ?thesis by (simp only: n zero_draw boxMuller_def)
qed

section \<open>step before any backward\<close>

lemma step_without_gradients:
  "weightGrads net = [] \<Longrightarrow> weights net = ((v # row) # rows) # ws \<Longrightarrow>
     step net learningRate = (net, Some TypeError)"
  by (simp add: step_def)

lemma initMatrix_first_row:
  "0 < n \<Longrightarrow> 0 < m \<Longrightarrow> \<exists>v row rows. fst (initMatrix n m scale g) = (v # row) # rows"
proof -
  assume "0 < n" "0 < m"
  then obtain n' m' where "n = Suc n'" "m = Suc m'" by (cases n; cases m) auto
  then show ?thesis by (simp add: case_prod_unfold Let_def)
qed

lemma fresh_engine:
  assumes "2 \<le> length sizes" and "list_all (\<lambda>n. 0 < n) sizes"
  shows "weightGrads (Network_new sizes seed mathRandom) = [] \<and>
         (\<exists>v row rows ws. weights (Network_new sizes seed mathRandom) = ((v # row) # rows) # ws)"
proof -
  from assms(1) obtain n m rest where s: "sizes = n # m # rest"
    by (cases sizes; cases "tl sizes") auto
  with assms(2) have "0 < n" "0 < m" by simp_all
  from initMatrix_first_row[OF this] show ?thesis
    by (auto simp: Network_new_def s case_prod_unfold Let_def)
qed

lemma fresh_engine_step:
  assumes "2 \<le> length sizes" and "list_all (\<lambda>n. 0 < n) sizes"
  shows "step (Network_new sizes seed mathRandom) learningRate =
           (Network_new sizes seed mathRandom, Some TypeError)"
  using fresh_engine[OF assms, of seed mathRandom] step_without_gradients by blast

text \<open>
  C8, as the code has it. The gradient arrays of a fresh engine are empty arrays, not
  zeros. On a fresh engine of at least two layers, all of positive width, \<open>step\<close> throws a
  \<open>TypeError\<close> when it reads the first gradient, before it has written anything: the
  engine, every weight and every bias included, is as before the call.
\<close>

theorem step_before_backward:
  assumes "2 \<le> length sizes" and "list_all (\<lambda>n. 0 < n) sizes"
  shows "step (Network_new sizes seed mathRandom) learningRate =
           (Network_new sizes seed mathRandom, Some TypeError)"
  using assms by (rule fresh_engine_step)

text \<open>The engine of topology \<open>[2, 4, 1]\<close> seeded with 123, stepped with learning rate \<open>1/2\<close>.\<close>

theorem step_before_backward_witness:
  "2 \<le> length [2, 4, 1 :: nat] \<and> list_all (\<lambda>n. 0 < n) [2, 4, 1 :: nat] \<and>
   step (Network_new [2, 4, 1] (Some 123) (\<lambda>n. 0)) (1 / 2) =
     (Network_new [2, 4, 1] (Some 123) (\<lambda>n. 0), Some TypeError)"
proof -
  have a: "2 \<le> length [2, 4, 1 :: nat]" "list_all (\<lambda>n. 0 < n) [2, 4, 1 :: nat]" by simp_all
  from step_before_backward[OF a] a show ?thesis by blast
qed

text \<open>
  C8 as the claim states it fails on the same engine: the call faults.
\<close>

theorem step_before_backward_counterexample:
  "snd (step (Network_new [2, 4, 1] (Some 123) (\<lambda>n. 0)) (1 / 2)) = Some TypeError"
proof -
  have a: "2 \<le> length [2, 4, 1 :: nat]" "list_all (\<lambda>n. 0 < n) [2, 4, 1 :: nat]" by simp_all
  from fresh_engine_step[OF a] show ?thesis by simp
qed

section \<open>The generated dataset\<close>

lemma advance_thrice: "advance (Suc 0) (advance (Suc 0) (advance (Suc 0) g)) = advance 3 g"
  by (simp add: advance_add numeral_3_eq_3)

lemma generateLoop_first:
  "generateLoop (Suc n) noiseLevel g = pointAt g noiseLevel 0 # generateLoop n noiseLevel (advance 3 g)"
  by (simp add: random_draw drawAt_advance advance_thrice pointAt_def case_prod_unfold Let_def)

lemma pointAt_advance: "pointAt (advance 3 g) noiseLevel i = pointAt g noiseLevel (Suc i)"
  by (simp add: pointAt_def drawAt_advance add.commute numeral_3_eq_3)

lemma generateLoop_eq:
  "generateLoop n noiseLevel g = map (pointAt g noiseLevel) [0..<n]"
proof (induction n arbitrary: g)
  case 0
  then show ?case by simp
next
  case (Suc n)
  have "generateLoop (Suc n) noiseLevel g =
      pointAt g noiseLevel 0 # map (\<lambda>i. pointAt g noiseLevel (Suc i)) [0..<n]"
    by (simp only: generateLoop_first Suc.IH pointAt_advance)
  also have "\<dots> = map (pointAt g noiseLevel) [0..<Suc n]"
    by (simp add: map_upt_Suc del: upt_Suc)
  finally show ?case .
qed

text \<open>
  C7. The dataset is the list of the points \<open>0, ..., numSamples - 1\<close> in this order, each
  made from its three consecutive draws of the generator seeded with \<open>seed\<close> as the
  specification says. The model is a function of the three arguments alone, as the source
  reads no state but the generator it creates: equal arguments give equal lists.
\<close>

theorem generateNoisyData_points:
  "generateNoisyData numSamples noiseLevel seed =
     map (pointAt (seededRandom seed) noiseLevel) [0..<numSamples]"
  by (simp add: generateNoisyData_def generateLoop_eq)

lemma seedInt_42:
  "seedInt 1103515245 12345 42 = - 896987621" "seedInt 134775813 1 42 = 1365616851"
  by (simp_all add: seedInt_def Let_def)

lemma lanes_42:
  "lanesInt 11 (- 896987621, 1365616851) = (1076583275, 541991813)"
  "lanesInt 12 (- 896987621, 1365616851) = (421270427, 336167387)"
  "lanesInt 13 (- 896987621, 1365616851) = (90348428, 1228965596)"
  by (simp_all add: lanesInt_numeral laneInt_def Let_def)

lemma draws_42:
  "drawAt (seededRandom 42) 0 = 595942251 / 4294967296"
  "drawAt (seededRandom 42) (Suc 0) = 2178618267 / 4294967296"
  "drawAt (seededRandom 42) (Suc (Suc 0)) = 2262604684 / 4294967296"
  by (simp_all add: drawAt_seeded seedInt_42 lanes_42 numeral_2_eq_2[symmetric] numeral_3_eq_3[symmetric] del: One_nat_def)

text \<open>The first point of the dataset of seed 42 and noise level \<open>1/5\<close>.\<close>

lemma generateNoisyData_example:
  "generateNoisyData 1 (1 / 5) 42 =
     [\<lparr> input = [595942251 / 4294967296, 2178618267 / 4294967296], target = [1], trueTarget = [1],
         isNoisy = False \<rparr>]"
  by (simp add: generateNoisyData_def generateLoop_eq pointAt_def draws_42)

section \<open>The operations return on the engines of the application\<close>

lemma shaped_from_nth:
  "length ls = Suc (length ws) \<Longrightarrow> length bs = length ws \<Longrightarrow>
   (\<And>i. i < length ws \<Longrightarrow> 0 < ls ! i \<and> length (ws ! i) = ls ! i \<and>
        list_all (\<lambda>row. length row = ls ! Suc i) (ws ! i) \<and> length (bs ! i) = ls ! Suc i) \<Longrightarrow>
   shaped ls ws bs"
proof (induction ws arbitrary: ls bs)
  case Nil
  then show ?case by (cases ls; cases "tl ls"; cases bs) simp_all
next
  case (Cons w ws)
  from Cons.prems(1) obtain n m ls' where ls: "ls = n # m # ls'"
    by (cases ls; cases "tl ls") auto
  from Cons.prems(2) obtain b bs' where bs: "bs = b # bs'" by (cases bs) auto
  have rest: "shaped (m # ls') ws bs'"
  proof (rule Cons.IH)
    show "length (m # ls') = Suc (length ws)" using Cons.prems(1) ls by simp
    show "length bs' = length ws" using Cons.prems(2) bs by simp
    fix i assume "i < length ws"
    then show "0 < (m # ls') ! i \<and> length (ws ! i) = (m # ls') ! i \<and>
        list_all (\<lambda>row. length row = (m # ls') ! Suc i) (ws ! i) \<and> length (bs' ! i) = (m # ls') ! Suc i"
      using Cons.prems(3)[of "Suc i"] ls bs by simp
  qed
  from Cons.prems(3)[of 0] ls bs rest show ?case by simp
qed

lemma gradients_shaped:
  assumes st: "storedShapes net" and d: "length dOut = last (layerSizes net)"
  shows "shaped (layerSizes net)
           (map (\<lambda>i. outer (activations net ! i) (deltaAt net dOut i)) [0..<length (weights net)])
           (map (deltaAt net dOut) [0..<length (weights net)])"
proof (rule shaped_from_nth)
  show "length (layerSizes net) =
      Suc (length (map (\<lambda>i. outer (activations net ! i) (deltaAt net dOut i)) [0..<length (weights net)]))"
    using storedShapes_facts(1)[OF st] by simp
  show "length (map (deltaAt net dOut) [0..<length (weights net)]) =
      length (map (\<lambda>i. outer (activations net ! i) (deltaAt net dOut i)) [0..<length (weights net)])"
    by simp
  fix i
  assume "i < length (map (\<lambda>i. outer (activations net ! i) (deltaAt net dOut i)) [0..<length (weights net)])"
  then have i: "i < length (weights net)" by simp
  from st have sh: "shaped (layerSizes net) (weights net) (biases net)"
    by (simp add: storedShapes_def wellShaped_def)
  have pos: "0 < layerSizes net ! i" using shaped_nth[OF sh i] by simp
  have a: "length (activations net ! i) = layerSizes net ! i"
    using storedShapes_facts(8)[OF st, of i] i by simp
  have dl: "length (deltaAt net dOut i) = layerSizes net ! Suc i"
    using deltaAt_length[OF st d i] .
  show "0 < layerSizes net ! i \<and>
         length (map (\<lambda>i. outer (activations net ! i) (deltaAt net dOut i)) [0..<length (weights net)] ! i) =
         layerSizes net ! i \<and>
         list_all (\<lambda>row. length row = layerSizes net ! Suc i)
          (map (\<lambda>i. outer (activations net ! i) (deltaAt net dOut i)) [0..<length (weights net)] ! i) \<and>
         length (map (deltaAt net dOut) [0..<length (weights net)] ! i) = layerSizes net ! Suc i"
    using i pos a dl by (simp add: outer_def list_all_iff)
qed

lemma stepRow_ok:
  "length g = length row \<Longrightarrow>
     \<exists>row'. stepRow learningRate row (Some g) = (row', None) \<and> length row' = length row"
proof (induction row arbitrary: g)
  case Nil
  then show ?case by simp
next
  case (Cons w row)
  then obtain g0 g' where g: "g = g0 # g'" by (cases g) auto
  with Cons.prems have "length g' = length row" by simp
  from Cons.IH[OF this] g show ?case by auto
qed

lemma stepMatrix_ok:
  "length g = length w \<Longrightarrow> list_all (\<lambda>r. length r = m) w \<Longrightarrow> list_all (\<lambda>r. length r = m) g \<Longrightarrow>
     \<exists>w'. stepMatrix learningRate w (Some g) = (w', None) \<and> length w' = length w \<and>
          list_all (\<lambda>r. length r = m) w'"
proof (induction w arbitrary: g)
  case Nil
  then show ?case by simp
next
  case (Cons row w)
  then obtain g0 g' where g: "g = g0 # g'" by (cases g) auto
  with Cons.prems have len: "length g' = length w" and r: "length g0 = length row"
    and rm: "length row = m" and w: "list_all (\<lambda>r. length r = m) w"
    and g': "list_all (\<lambda>r. length r = m) g'" by simp_all
  from stepRow_ok[OF r] obtain row' where
    row': "stepRow learningRate row (Some g0) = (row', None)" "length row' = length row" by blast
  from Cons.IH[OF len w g'] obtain w' where
    w': "stepMatrix learningRate w (Some g') = (w', None)" "length w' = length w"
      "list_all (\<lambda>r. length r = m) w'" by blast
  from row' w' g rm show ?case by simp
qed

lemma stepLayers_ok:
  "shaped ls ws bs \<Longrightarrow> shaped ls wg bg \<Longrightarrow>
     \<exists>ws' bs'. stepLayers learningRate ws bs wg bg = ((ws', bs'), None) \<and> shaped ls ws' bs'"
proof (induction ls ws bs arbitrary: wg bg rule: shaped.induct)
  case (1 n m ls w ws b bs)
  from "1.prems"(2) obtain g wg' gb bg' where wg: "wg = g # wg'" and bg: "bg = gb # bg'"
    and g: "length g = n" "list_all (\<lambda>row. length row = m) g" and gb: "length gb = m"
    and rest: "shaped (m # ls) wg' bg'"
    by (cases wg; cases bg) auto
  from "1.prems"(1) have w: "0 < n" "length w = n" "list_all (\<lambda>row. length row = m) w"
    and b: "length b = m" and wrest: "shaped (m # ls) ws bs" by simp_all
  from stepMatrix_ok[of g w m learningRate] g w obtain w' where
    w': "stepMatrix learningRate w (Some g) = (w', None)" "length w' = length w"
      "list_all (\<lambda>r. length r = m) w'" by auto
  from stepRow_ok[of gb b learningRate] gb b obtain b' where
    b': "stepRow learningRate b (Some gb) = (b', None)" "length b' = length b" by auto
  from "1.IH"[OF wrest rest] obtain ws' bs' where
    r: "stepLayers learningRate ws bs wg' bg' = ((ws', bs'), None)" "shaped (m # ls) ws' bs'"
    by blast
  from w' b' r wg bg w b show ?case by simp
next
  case (2 n)
  then show ?case by simp
qed simp_all

lemma backward_keeps:
  "backward net x tgt s = Inr net' \<Longrightarrow>
     weights net' = weights net \<and> biases net' = biases net \<and>
     preActivations net' = preActivations net \<and> activations net' = activations net \<and>
     layerSizes net' = layerSizes net \<and>
     net' = net \<lparr> weightGrads := weightGrads net', biasGrads := biasGrads net' \<rparr>"
  by (auto simp: backward_def Let_def split: if_splits sum.splits prod.splits)

lemma forward_ok:
  assumes ok: "engineOK net" and x: "length x = 2"
  shows "\<exists>out net'. forward net x = Inr (out, net') \<and> storedShapes net' \<and> engineOK net' \<and>
           layerSizes net' = layerSizes net \<and> weights net' = weights net \<and>
           biases net' = biases net \<and> length out = 1"
proof -
  from ok have ws: "wellShaped net" and h: "hd (layerSizes net) = 2" and l: "last (layerSizes net) = 1"
    by (simp_all add: engineOK_def)
  from x h have xl: "length x = hd (layerSizes net)" by simp
  from forward_stores[OF ws xl] obtain out net' where fw: "forward net x = Inr (out, net')" by blast
  from forward_keeps_sizes[OF ws xl fw] have k: "storedShapes net'" "layerSizes net' = layerSizes net"
    "weights net' = weights net" "biases net' = biases net" "out = last (preActivations net')"
    by simp_all
  from k(1) have "wellShaped net'" by (simp add: storedShapes_def)
  with k(2) h l have "engineOK net'" by (simp add: engineOK_def)
  moreover have "length out = 1" using stored_output_length[OF k(1)] k(2,5) l by simp
  ultimately show ?thesis using fw k by blast
qed

lemma backward_ok:
  assumes st: "storedShapes net" and t: "length tgt = last (layerSizes net)" and s: "0 \<le> s"
  shows "\<exists>net'. backward net x tgt s = Inr net' \<and>
           shaped (layerSizes net) (weightGrads net') (biasGrads net') \<and>
           weights net' = weights net \<and> biases net' = biases net \<and>
           layerSizes net' = layerSizes net"
proof -
  from backward_stored[OF st t s, of x] obtain net' where
    b: "backward net x tgt s = Inr net'"
    and wg: "weightGrads net' =
             map (\<lambda>i. outer (activations net ! i)
                         (deltaAt net (map2 (outputDelta s) tgt (last (preActivations net))) i))
               [0..<length (weights net)]"
    and bg: "biasGrads net' =
             map (deltaAt net (map2 (outputDelta s) tgt (last (preActivations net))))
               [0..<length (weights net)]"
    by blast
  have "length (map2 (outputDelta s) tgt (last (preActivations net))) = last (layerSizes net)"
    using t stored_output_length[OF st] by simp
  from gradients_shaped[OF st this] wg bg
  have "shaped (layerSizes net) (weightGrads net') (biasGrads net')" by simp
  with b backward_keeps[OF b] show ?thesis by blast
qed

lemma step_ok:
  assumes ws: "wellShaped net"
    and g: "shaped (layerSizes net) (weightGrads net) (biasGrads net)"
  shows "\<exists>net'. step net learningRate = (net', None) \<and> wellShaped net' \<and>
           layerSizes net' = layerSizes net"
proof -
  from ws have sh: "shaped (layerSizes net) (weights net) (biases net)"
    and two: "2 \<le> length (layerSizes net)" by (simp_all add: wellShaped_def)
  from stepLayers_ok[OF sh g, of learningRate] obtain ws' bs' where
    r: "stepLayers learningRate (weights net) (biases net) (weightGrads net) (biasGrads net) =
          ((ws', bs'), None)" and s: "shaped (layerSizes net) ws' bs'" by blast
  from r have "step net learningRate = (net \<lparr> weights := ws', biases := bs' \<rparr>, None)"
    by (simp add: step_def)
  moreover have "wellShaped (net \<lparr> weights := ws', biases := bs' \<rparr>)"
    using s two by (simp add: wellShaped_def)
  ultimately show ?thesis by simp
qed

lemma trainEpoch_ok:
  "engineOK net \<Longrightarrow> list_all pointOK data \<Longrightarrow> 0 \<le> confPenalty \<Longrightarrow>
     \<exists>net'. trainEpoch net data learningRate confPenalty = Inr net' \<and> engineOK net' \<and>
            layerSizes net' = layerSizes net"
proof (induction data arbitrary: net)
  case Nil
  then show ?case by simp
next
  case (Cons d data)
  from Cons.prems(2) have pd: "pointOK d" and rest: "list_all pointOK data" by simp_all
  from pd have d: "length (input d) = 2" "length (target d) = 1" by (simp_all add: pointOK_def)
  from forward_ok[OF Cons.prems(1) d(1)] obtain out net1 where
    f: "forward net (input d) = Inr (out, net1)" and st1: "storedShapes net1"
    and ok1: "engineOK net1" and ls1: "layerSizes net1 = layerSizes net" by blast
  from ok1 d(2) have t: "length (target d) = last (layerSizes net1)" by (simp add: engineOK_def)
  from backward_ok[OF st1 t Cons.prems(3), of "input d"] obtain net2 where
    b: "backward net1 (input d) (target d) confPenalty = Inr net2"
    and g2: "shaped (layerSizes net1) (weightGrads net2) (biasGrads net2)"
    and k2: "weights net2 = weights net1" "biases net2 = biases net1"
      "layerSizes net2 = layerSizes net1" by blast
  from ok1 k2 have ws2: "wellShaped net2" by (simp add: engineOK_def wellShaped_def)
  from g2 k2 have g2': "shaped (layerSizes net2) (weightGrads net2) (biasGrads net2)" by simp
  from step_ok[OF ws2 g2', of learningRate] obtain net3 where
    s: "step net2 learningRate = (net3, None)" and ws3: "wellShaped net3"
    and ls3: "layerSizes net3 = layerSizes net2" by blast
  from ws3 ls3 k2(3) ok1 have ok3: "engineOK net3" by (simp add: engineOK_def)
  from Cons.IH[OF ok3 rest Cons.prems(3)] obtain net' where
    r: "trainEpoch net3 data learningRate confPenalty = Inr net'" "engineOK net'"
      "layerSizes net' = layerSizes net3" by blast
  from f b s r ls3 k2(3) ls1 show ?case by simp
qed

lemma binaryCrossEntropy_ok:
  "length predicted = 1 \<Longrightarrow> length tgt = 1 \<Longrightarrow> \<exists>l. binaryCrossEntropy predicted tgt = Inr l"
  by (auto simp: binaryCrossEntropy_def)

lemma calcConfidencePenalty_ok:
  "length predicted = 1 \<Longrightarrow> \<exists>c. calcConfidencePenalty predicted = Inr c"
  by (auto simp: calcConfidencePenalty_def)

lemma trainLossLoop_ok:
  "engineOK net \<Longrightarrow> list_all pointOK data \<Longrightarrow>
     \<exists>l net'. trainLossLoop net data confPenalty totalLoss = Inr (l, net') \<and> engineOK net' \<and>
            layerSizes net' = layerSizes net \<and> weights net' = weights net \<and>
            biases net' = biases net"
proof (induction data arbitrary: net totalLoss)
  case Nil
  then show ?case by simp
next
  case (Cons d data)
  from Cons.prems(2) have pd: "pointOK d" and rest: "list_all pointOK data" by simp_all
  from pd have d: "length (input d) = 2" "length (target d) = 1" by (simp_all add: pointOK_def)
  from forward_ok[OF Cons.prems(1) d(1)] obtain out net1 where
    f: "forward net (input d) = Inr (out, net1)"
    and ok1: "engineOK net1" and k1: "layerSizes net1 = layerSizes net"
      "weights net1 = weights net" "biases net1 = biases net" and o: "length out = 1" by blast
  from o have so: "length (map sigmoid out) = 1" by simp
  from binaryCrossEntropy_ok[OF so d(2)] obtain l where
    l: "binaryCrossEntropy (map sigmoid out) (target d) = Inr l" by blast
  from calcConfidencePenalty_ok[OF so] obtain c where
    c: "calcConfidencePenalty (map sigmoid out) = Inr c" by blast
  define l' where "l' = (if confPenalty > 0 then l + confPenalty * c else l)"
  from Cons.IH[OF ok1 rest, of "totalLoss + l'"] obtain l2 net' where
    r: "trainLossLoop net1 data confPenalty (totalLoss + l') = Inr (l2, net')" "engineOK net'"
      "layerSizes net' = layerSizes net1" "weights net' = weights net1" "biases net' = biases net1"
    by blast
  from f l c r k1 show ?case by (cases "0 < confPenalty") (auto simp: l'_def)
qed

lemma computeTrainLoss_ok:
  assumes "engineOK net" and "list_all pointOK data" and "data \<noteq> []"
  shows "\<exists>l net'. computeTrainLoss net data confPenalty = Inr (l, net') \<and> engineOK net' \<and>
            layerSizes net' = layerSizes net \<and> weights net' = weights net \<and>
            biases net' = biases net"
  using trainLossLoop_ok[OF assms(1,2), of confPenalty 0] assms(3)
  by (auto simp: computeTrainLoss_def)

lemma cleanLoop_ok:
  "engineOK net \<Longrightarrow> list_all (\<lambda>(inp, tgt). length inp = 2 \<and> length tgt = 1) pts \<Longrightarrow>
     \<exists>l c net'. cleanLoop net pts totalLoss correct = Inr (l, c, net') \<and> engineOK net' \<and>
            layerSizes net' = layerSizes net \<and> weights net' = weights net \<and>
            biases net' = biases net"
proof (induction pts arbitrary: net totalLoss correct)
  case Nil
  then show ?case by simp
next
  case (Cons pt pts)
  obtain inp tgt where pt: "pt = (inp, tgt)" by (cases pt)
  with Cons.prems(2) have d: "length inp = 2" "length tgt = 1"
    and rest: "list_all (\<lambda>(inp, tgt). length inp = 2 \<and> length tgt = 1) pts" by simp_all
  from forward_ok[OF Cons.prems(1) d(1)] obtain out net1 where
    f: "forward net inp = Inr (out, net1)"
    and ok1: "engineOK net1" and k1: "layerSizes net1 = layerSizes net"
      "weights net1 = weights net" "biases net1 = biases net" and o: "length out = 1" by blast
  from o have so: "length (map sigmoid out) = 1" by simp
  from binaryCrossEntropy_ok[OF so d(2)] obtain l where
    l: "binaryCrossEntropy (map sigmoid out) tgt = Inr l" by blast
  define c' where "c' = (if (if hd (map sigmoid out) \<ge> 1 / 2 then 1 else 0 :: real) = hd tgt
                         then Suc correct else correct)"
  from Cons.IH[OF ok1 rest, of "totalLoss + l" c'] obtain l2 c2 net' where
    r: "cleanLoop net1 pts (totalLoss + l) c' = Inr (l2, c2, net')" "engineOK net'"
      "layerSizes net' = layerSizes net1" "weights net' = weights net1" "biases net' = biases net1"
    by blast
  from f l r k1 pt show ?case by (simp add: c'_def Let_def)
qed

lemma computeCleanMetrics_ok:
  assumes "engineOK net"
  shows "\<exists>m net'. computeCleanMetrics net = Inr (m, net') \<and> engineOK net' \<and>
            layerSizes net' = layerSizes net \<and> weights net' = weights net \<and>
            biases net' = biases net"
proof -
  have "list_all (\<lambda>(inp, tgt). length inp = 2 \<and> length tgt = 1) CLEAN_XOR"
    by (simp add: CLEAN_XOR_def)
  from cleanLoop_ok[OF assms this, of 0 0] show ?thesis
    by (auto simp: computeCleanMetrics_def)
qed

lemma getState_fields:
  "weights (getState net) = weights net \<and> biases (getState net) = biases net"
  by (simp add: getState_def)

lemma rehydrated:
  "layerSizes (setState (Network_new sizes seed mathRandom) s) = sizes \<and>
   weights (setState (Network_new sizes seed mathRandom) s) = weights s \<and>
   biases (setState (Network_new sizes seed mathRandom) s) = biases s \<and>
   getState (setState (Network_new sizes seed mathRandom) s) = s"
  by (cases s) (simp add: setState_def getState_def Network_new_def case_prod_unfold Let_def)

lemma Network_new_ok:
  assumes "2 \<le> length sizes" and "list_all (\<lambda>n. 0 < n) sizes"
    and "hd sizes = 2" and "last sizes = 1"
  shows "engineOK (Network_new sizes seed mathRandom) \<and>
         layerSizes (Network_new sizes seed mathRandom) = sizes"
proof -
  from assms(1) have ne: "sizes \<noteq> []" by auto
  have "shaped sizes (weights (Network_new sizes seed mathRandom))
          (biases (Network_new sizes seed mathRandom))"
    using initLayers_shaped[OF ne assms(2)]
    by (simp add: Network_new_def case_prod_unfold Let_def)
  moreover have "layerSizes (Network_new sizes seed mathRandom) = sizes"
    by (simp add: Network_new_def case_prod_unfold Let_def)
  ultimately show ?thesis using assms by (simp add: engineOK_def wellShaped_def)
qed

lemma createInitialState_ok:
  assumes sizes: "2 \<le> length sizes" "list_all (\<lambda>n. 0 < n) sizes" "hd sizes = 2" "last sizes = 1"
    and data: "list_all pointOK trainingData" "trainingData \<noteq> []"
  shows "\<exists>st0. createInitialState sizes trainingData confPenalty seed mathRandom = Inr st0 \<and>
           historyOK st0"
proof -
  from Network_new_ok[OF sizes, of seed mathRandom]
  have ok0: "engineOK (Network_new sizes seed mathRandom)"
    and ls0: "layerSizes (Network_new sizes seed mathRandom) = sizes" by simp_all
  from computeTrainLoss_ok[OF ok0 data, of confPenalty] obtain l net1 where
    c1: "computeTrainLoss (Network_new sizes seed mathRandom) trainingData confPenalty = Inr (l, net1)"
    and ok1: "engineOK net1" and ls1: "layerSizes net1 = sizes" using ls0 by auto
  from computeCleanMetrics_ok[OF ok1] obtain m net2 where
    c2: "computeCleanMetrics net1 = Inr (m, net2)" and ok2: "engineOK net2"
    and ls2: "layerSizes net2 = sizes" using ls1 by auto
  obtain cl acc where m: "m = (cl, acc)" by (cases m)
  from ok2 have "shaped (layerSizes net2) (weights net2) (biases net2)"
    by (simp add: engineOK_def wellShaped_def)
  then show ?thesis using c1 c2 m ok2 ls2 sizes
    by (simp add: createInitialState_def Let_def historyOK_def getState_fields engineOK_def)
qed

lemma trainStep_ok:
  assumes h: "historyOK prev" and data: "list_all pointOK trainingData" "trainingData \<noteq> []"
    and s: "0 \<le> confPenalty"
  shows "\<exists>st. trainStep trainingData learningRate confPenalty mathRandom prev = Inr st \<and>
           historyOK st"
proof -
  define ls where "ls = layerSizes (network prev)"
  from h have cur: "currentStep prev < length (steps prev)" and two: "2 \<le> length ls"
    and hl: "hd ls = 2" "last ls = 1"
    and all: "list_all (\<lambda>snapshot. shaped ls (weights (state snapshot)) (biases (state snapshot)))
                (steps prev)"
    by (simp_all add: historyOK_def ls_def)
  define snapshot where "snapshot = steps prev ! currentStep prev"
  from cur have n: "nth_opt (steps prev) (currentStep prev) = Some snapshot"
    by (simp add: nth_opt_def snapshot_def)
  from all cur have sh: "shaped ls (weights (state snapshot)) (biases (state snapshot))"
    by (simp add: list_all_length snapshot_def)
  define net where "net = setState (Network_new ls None mathRandom) (state snapshot)"
  from rehydrated[of ls None mathRandom "state snapshot"] sh two hl
  have ok: "engineOK net" and ls0: "layerSizes net = ls"
    by (simp_all add: net_def engineOK_def wellShaped_def)
  from trainEpoch_ok[OF ok data(1) s, of learningRate] obtain net1 where
    e: "trainEpoch net trainingData learningRate confPenalty = Inr net1" and ok1: "engineOK net1"
    and ls1: "layerSizes net1 = ls" using ls0 by auto
  from computeTrainLoss_ok[OF ok1 data, of confPenalty] obtain l net2 where
    c1: "computeTrainLoss net1 trainingData confPenalty = Inr (l, net2)"
    and ok2: "engineOK net2" and ls2: "layerSizes net2 = ls" using ls1 by auto
  from computeCleanMetrics_ok[OF ok2] obtain m net3 where
    c2: "computeCleanMetrics net2 = Inr (m, net3)" and ok3: "engineOK net3"
    and ls3: "layerSizes net3 = ls" using ls2 by auto
  obtain cl acc where m: "m = (cl, acc)" by (cases m)
  from ok1 ls1 have sh1: "shaped ls (weights net1) (biases net1)"
    by (simp add: engineOK_def wellShaped_def)
  show ?thesis
    using n e c1 c2 m cur two hl all sh1 ls3
    by (simp add: trainStep_def Let_def ls_def[symmetric] net_def[symmetric] historyOK_def
        getState_fields)
qed

lemma trainSteps_ok:
  assumes data: "list_all pointOK trainingData" "trainingData \<noteq> []" and s: "0 \<le> confPenalty"
  shows "historyOK st0 \<Longrightarrow>
     \<exists>st. trainSteps trainingData learningRate confPenalty rs st0 = Inr st \<and> historyOK st"
proof (induction rs arbitrary: st0)
  case Nil
  then show ?case by simp
next
  case (Cons r rs)
  from trainStep_ok[OF Cons.prems data s, of learningRate r] obtain st1 where
    t: "trainStep trainingData learningRate confPenalty r st0 = Inr st1" and h: "historyOK st1"
    by blast
  from Cons.IH[OF h] t show ?case by simp
qed

lemma generated_points_ok: "list_all pointOK (generateNoisyData numSamples noiseLevel seed)"
  by (simp add: generateNoisyData_def generateLoop_eq list_all_iff pointOK_def pointAt_def Let_def)

section \<open>The history\<close>

lemma trainStep_appends:
  assumes "trainStep trainingData learningRate confPenalty mathRandom prev = Inr st"
  shows "\<exists>snapshot. steps st = steps prev @ [snapshot] \<and>
           stepIndex snapshot = currentStep prev + 1 \<and>
           currentStep st = currentStep prev + 1 \<and>
           isPlaying st = isPlaying prev \<and> selectedInputIdx st = selectedInputIdx prev"
  using assms
  by (auto simp: trainStep_def Let_def split: option.splits sum.splits prod.splits)

lemma trainStep_frontier:
  assumes t: "trainStep trainingData learningRate confPenalty mathRandom prev = Inr st"
    and f: "frontier prev"
  shows "frontier st \<and> length (steps st) = Suc (length (steps prev)) \<and>
         take (length (steps prev)) (steps st) = steps prev"
  using trainStep_appends[OF t] f by (auto simp: frontier_def)

lemma trainSteps_frontier:
  "trainSteps trainingData learningRate confPenalty rs st0 = Inr st \<Longrightarrow> frontier st0 \<Longrightarrow>
     frontier st \<and> length (steps st) = length (steps st0) + length rs \<and>
     take (length (steps st0)) (steps st) = steps st0"
proof (induction rs arbitrary: st0)
  case Nil
  then show ?case by simp
next
  case (Cons r rs)
  from Cons.prems(1) obtain st1 where
    t: "trainStep trainingData learningRate confPenalty r st0 = Inr st1"
    and rest: "trainSteps trainingData learningRate confPenalty rs st1 = Inr st"
    by (auto split: sum.splits)
  from trainStep_frontier[OF t Cons.prems(2)] have f1: "frontier st1"
    and l1: "length (steps st1) = Suc (length (steps st0))"
    and p1: "take (length (steps st0)) (steps st1) = steps st0" by simp_all
  from Cons.IH[OF rest f1] have f: "frontier st"
    and l: "length (steps st) = length (steps st1) + length rs"
    and p: "take (length (steps st1)) (steps st) = steps st1" by simp_all
  have "take (length (steps st0)) (steps st) =
      take (length (steps st0)) (take (length (steps st1)) (steps st))"
    using l1 by (simp add: min_def)
  with p p1 have "take (length (steps st0)) (steps st) = steps st0" by simp
  with f l l1 show ?case by simp
qed

lemma trainSteps_append:
  "trainSteps trainingData learningRate confPenalty (rs1 @ rs2) st0 =
     (case trainSteps trainingData learningRate confPenalty rs1 st0 of
        Inl e \<Rightarrow> Inl e
      | Inr st1 \<Rightarrow> trainSteps trainingData learningRate confPenalty rs2 st1)"
  by (induction rs1 arbitrary: st0) (simp_all split: sum.splits)

lemma createInitialState_frontier:
  assumes "createInitialState sizes trainingData confPenalty seed mathRandom = Inr st0"
  shows "frontier st0 \<and> length (steps st0) = 1 \<and> stepIndex (steps st0 ! 0) = 0 \<and>
         currentStep st0 = 0 \<and> state (steps st0 ! 0) = getState (network st0)"
  using assms
  by (auto simp: createInitialState_def Let_def frontier_def split: sum.splits prod.splits)

text \<open>
  C4. From the state \<open>createInitialState\<close> returns (one snapshot, of step index 0, holding
  the exported state of the new engine; \<open>currentStep = 0\<close>), after \<open>n\<close> consecutive calls of
  \<open>trainStep\<close> that return, the history has \<open>n + 1\<close> snapshots, the snapshot at position \<open>i\<close>
  has step index \<open>i\<close>, \<open>currentStep\<close> is \<open>n\<close>, and the history after the first \<open>m\<close> calls is
  the first \<open>m + 1\<close> snapshots of the final one, for every \<open>m \<le> n\<close>: snapshots are appended
  and never changed.
\<close>

theorem history_growth:
  assumes init: "createInitialState sizes trainingData confPenalty seed r0 = Inr st0"
    and run: "trainSteps trainingData learningRate confPenalty rs st0 = Inr st"
  shows "length (steps st0) = 1 \<and> stepIndex (steps st0 ! 0) = 0 \<and> currentStep st0 = 0 \<and>
         state (steps st0 ! 0) = getState (network st0) \<and>
         length (steps st) = length rs + 1 \<and>
         map stepIndex (steps st) = [0..<length rs + 1] \<and>
         currentStep st = length rs \<and>
         (\<forall>m \<le> length rs. \<exists>stm.
            trainSteps trainingData learningRate confPenalty (take m rs) st0 = Inr stm \<and>
            steps stm = take (m + 1) (steps st))"
proof -
  from createInitialState_frontier[OF init] have f0: "frontier st0"
    and i0: "length (steps st0) = 1" "stepIndex (steps st0 ! 0) = 0" "currentStep st0 = 0"
      "state (steps st0 ! 0) = getState (network st0)" by simp_all
  from trainSteps_frontier[OF run f0] i0(1) have f: "frontier st"
    and l: "length (steps st) = length rs + 1" by simp_all
  have pre: "\<exists>stm. trainSteps trainingData learningRate confPenalty (take m rs) st0 = Inr stm \<and>
            steps stm = take (m + 1) (steps st)" if "m \<le> length rs" for m
  proof -
    have "trainSteps trainingData learningRate confPenalty (take m rs @ drop m rs) st0 = Inr st"
      using run by simp
    then obtain stm where
      a: "trainSteps trainingData learningRate confPenalty (take m rs) st0 = Inr stm"
      and b: "trainSteps trainingData learningRate confPenalty (drop m rs) stm = Inr st"
      unfolding trainSteps_append by (auto split: sum.splits)
    from trainSteps_frontier[OF a f0] i0(1) that have fm: "frontier stm"
      and lm: "length (steps stm) = m + 1" by simp_all
    from trainSteps_frontier[OF b fm] lm have "take (m + 1) (steps st) = steps stm" by simp
    with a show ?thesis by simp
  qed
  from f l have "map stepIndex (steps st) = [0..<length rs + 1]" "currentStep st = length rs"
    by (simp_all add: frontier_def)
  with i0 l pre show ?thesis by blast
qed

text \<open>
  The calls do return on the configurations of the application: a topology of at least
  two layers of positive width with two inputs and one output, and a non-empty dataset of
  points with two inputs and one target, such as the generated one.
\<close>

lemma training_returns:
  assumes sizes: "2 \<le> length sizes" "list_all (\<lambda>n. 0 < n) sizes" "hd sizes = 2" "last sizes = 1"
    and data: "list_all pointOK trainingData" "trainingData \<noteq> []" and s: "0 \<le> confPenalty"
  shows "\<exists>st0 st. createInitialState sizes trainingData confPenalty seed r0 = Inr st0 \<and>
           trainSteps trainingData learningRate confPenalty rs st0 = Inr st"
proof -
  from createInitialState_ok[OF sizes data, of confPenalty seed r0] obtain st0 where
    c: "createInitialState sizes trainingData confPenalty seed r0 = Inr st0" and h: "historyOK st0"
    by blast
  from trainSteps_ok[OF data s h, of learningRate rs] c show ?thesis by blast
qed

text \<open>
  Three epochs of the default application: topology \<open>[2, 4, 1]\<close>, engine seed 123, the
  dataset of 100 points of seed 42 without noise, learning rate \<open>1/2\<close>, no confidence penalty.
\<close>

theorem history_growth_witness:
  "\<exists>st0 st.
     createInitialState [2, 4, 1] (generateNoisyData 100 0 42) 0 (Some 123) (\<lambda>n. 0) = Inr st0 \<and>
     trainSteps (generateNoisyData 100 0 42) (1 / 2) 0 [\<lambda>n. 0, \<lambda>n. 0, \<lambda>n. 0] st0 = Inr st \<and>
     length (steps st0) = 1 \<and> currentStep st0 = 0 \<and>
     length (steps st) = 4 \<and> map stepIndex (steps st) = [0, 1, 2, 3] \<and> currentStep st = 3 \<and>
     take 1 (steps st) = steps st0"
proof -
  have sizes: "2 \<le> length [2, 4, 1 :: nat]" "list_all (\<lambda>n. 0 < n) [2, 4, 1 :: nat]"
    "hd [2, 4, 1 :: nat] = 2" "last [2, 4, 1 :: nat] = 1" by simp_all
  have ne: "generateNoisyData 100 0 42 \<noteq> []"
    by (simp add: generateNoisyData_def generateLoop_eq)
  have z: "(0 :: real) \<le> 0" by simp
  from training_returns[OF sizes generated_points_ok ne z, of "Some 123" "\<lambda>n. 0" "1 / 2"
      "[\<lambda>n. 0, \<lambda>n. 0, \<lambda>n. 0]"]
  obtain st0 st where
    c: "createInitialState [2, 4, 1] (generateNoisyData 100 0 42) 0 (Some 123) (\<lambda>n. 0) = Inr st0"
    and t: "trainSteps (generateNoisyData 100 0 42) (1 / 2) 0 [\<lambda>n. 0, \<lambda>n. 0, \<lambda>n. 0] st0 = Inr st"
    by blast
  note g = history_growth[OF c t]
  from g have p: "\<exists>stm. trainSteps (generateNoisyData 100 0 42) (1 / 2) 0
      (take 0 [\<lambda>n. 0, \<lambda>n. 0, \<lambda>n. 0]) st0 = Inr stm \<and> steps stm = take (0 + 1) (steps st)"
    by blast
  then have "take 1 (steps st) = steps st0" by simp
  moreover have "[0..<length [\<lambda>n :: nat. 0 :: real, \<lambda>n. 0, \<lambda>n. 0] + 1] = [0, 1, 2, 3]"
    by (simp add: upt_rec)
  ultimately show ?thesis using c t g by auto
qed

section \<open>Navigation\<close>

text \<open>
  C6. For every integer \<open>k\<close>: when \<open>0 \<le> k < history.length\<close>, \<open>goToStep\<close> sets
  \<open>currentStep\<close> to \<open>k\<close> and puts in place an engine of the same topology whose exported
  state is the state stored in snapshot \<open>k\<close>, with the history and the other fields as
  they were; otherwise it returns the training state it was given.
\<close>

theorem goToStep_navigation:
  "(0 \<le> k \<and> k < int (length (steps st)) \<longrightarrow>
      currentStep (goToStep k mathRandom st) = nat k \<and>
      steps (goToStep k mathRandom st) = steps st \<and>
      getState (network (goToStep k mathRandom st)) = state (steps st ! nat k) \<and>
      layerSizes (network (goToStep k mathRandom st)) = layerSizes (network st) \<and>
      isPlaying (goToStep k mathRandom st) = isPlaying st \<and>
      selectedInputIdx (goToStep k mathRandom st) = selectedInputIdx st) \<and>
   (\<not> (0 \<le> k \<and> k < int (length (steps st))) \<longrightarrow> goToStep k mathRandom st = st)"
  using rehydrated[of "layerSizes (network st)" None mathRandom "state (steps st ! nat k)"]
  by (auto simp: goToStep_def Let_def)

text \<open>Going to step 0 of it, and to the steps 2 and -1 it does not have.\<close>

theorem goToStep_navigation_witness:
  "(0 :: int) \<le> 0 \<and> (0 :: int) < int (length (steps exampleHistory)) \<and>
   currentStep (goToStep 0 (\<lambda>n. 0) exampleHistory) = 0 \<and>
   steps (goToStep 0 (\<lambda>n. 0) exampleHistory) = steps exampleHistory \<and>
   getState (network (goToStep 0 (\<lambda>n. 0) exampleHistory)) = getState exampleNet \<and>
   \<not> ((0 :: int) \<le> 2 \<and> (2 :: int) < int (length (steps exampleHistory))) \<and>
   goToStep 2 (\<lambda>n. 0) exampleHistory = exampleHistory \<and>
   \<not> ((0 :: int) \<le> - 1 \<and> (- 1 :: int) < int (length (steps exampleHistory))) \<and>
   goToStep (- 1) (\<lambda>n. 0) exampleHistory = exampleHistory"
proof -
  have len: "length (steps exampleHistory) = 2" by (simp add: exampleHistory_def)
  have s0: "state (steps exampleHistory ! nat 0) = getState exampleNet"
    by (simp add: exampleHistory_def)
  from goToStep_navigation[of 0 exampleHistory "\<lambda>n. 0"]
    goToStep_navigation[of 2 exampleHistory "\<lambda>n. 0"]
    goToStep_navigation[of "- 1" exampleHistory "\<lambda>n. 0"] len s0
  show ?thesis by simp
qed

end
